theory Spec2Isabelle
  imports Complex_Main "HOL-Library.Char_ord" "HOL-Library.List_Lexorder"
    "HOL-Library.Product_Lexorder"
begin

section \<open>Python values used by the contact calculators\<close>

text \<open>
  Atom labels are Python strings of the form \<open>chain:resname:resid:name:index\<close>.
  A hydrogen bond handed to the stratifier is a 4-element sequence
  \<open>[frame_idx, atom1_label, atom2_label, itype]\<close>; every contact that is produced is a
  Python list or tuple made of a frame index followed by strings, which is modelled as a
  pair of the index and the list of the strings. Python compares strings bytewise and
  lexicographically, and tuples and lists componentwise; these are the orders that
  \<open>Char_ord\<close>, \<open>List_Lexorder\<close> and \<open>Product_Lexorder\<close> put on the types below.
\<close>

datatype py_error = UnboundLocalError | IndexError | KeyError | ValueError

type_synonym label = string

type_synonym hbond = "int \<times> label \<times> label \<times> string"

type_synonym contact = "int \<times> string list"

subsection \<open>Strings\<close>

text \<open>\<open>s.startswith(p)\<close>, and the substring test \<open>sub in s\<close>.\<close>

fun startswith :: "string \<Rightarrow> string \<Rightarrow> bool" where
  "startswith s [] = True"
| "startswith [] (p # ps) = False"
| "startswith (c # cs) (p # ps) = (c = p \<and> startswith cs ps)"

fun str_in :: "string \<Rightarrow> string \<Rightarrow> bool" where
  "str_in sub [] = (sub = [])"
| "str_in sub (c # cs) = (startswith (c # cs) sub \<or> str_in sub cs)"

text \<open>\<open>s.split(d)\<close> for a one-character separator: never empty, \<open>"".split(":") = [""]\<close>.\<close>

fun py_split :: "char \<Rightarrow> string \<Rightarrow> string list" where
  "py_split d [] = [[]]"
| "py_split d (c # cs) =
     (if c = d then [] # py_split d cs
      else (case py_split d cs of
              [] \<Rightarrow> [[c]]
            | w # ws \<Rightarrow> (c # w) # ws))"

text \<open>\<open>sep.join(xs)\<close>.\<close>

fun py_join :: "string \<Rightarrow> string list \<Rightarrow> string" where
  "py_join sep [] = []"
| "py_join sep [x] = x"
| "py_join sep (x # y # ys) = x @ sep @ py_join sep (y # ys)"

text \<open>\<open>xs[i]\<close> for a non-negative index: out of range raises \<open>IndexError\<close>.\<close>

definition py_index :: "'a list \<Rightarrow> nat \<Rightarrow> py_error + 'a" where
  "py_index xs i = (if i < length xs then Inr (xs ! i) else Inl IndexError)"

subsection \<open>Dictionaries whose values are sets\<close>

text \<open>
  A dictionary from keys to sets is a list of (key, set) pairs with distinct keys.
  \<open>dict_add k v d\<close> is the idiom
  \<^verbatim>\<open>if(k not in d): d[k] = set()
d[k].add(v)\<close>
  A new key goes to the end of the list. Python 2 iterates a dictionary in an order of
  its own; every loop over a dictionary below is modelled over the list, and the
  theorems are stated so that they hold for any order of the keys.
\<close>

fun dict_add :: "'k \<Rightarrow> 'v \<Rightarrow> ('k \<times> 'v set) list \<Rightarrow> ('k \<times> 'v set) list" where
  "dict_add k v [] = [(k, {v})]"
| "dict_add k v ((k', S) # d) =
     (if k' = k then (k', insert v S) # d else (k', S) # dict_add k v d)"

section \<open>stratify\_hbonds.py\<close>

subsection \<open>residue\_vs\_water\_hbonds\<close>

fun residue_vs_water_loop ::
  "hbond list \<Rightarrow> string \<Rightarrow> hbond list \<times> hbond list \<Rightarrow> hbond list \<times> hbond list" where
  "residue_vs_water_loop [] solvent_resn acc = acc"
| "residue_vs_water_loop ((frame_idx, atom1_label, atom2_label, itype) # hbonds) solvent_resn
       (residue_hbonds, water_hbonds) =
     (if str_in solvent_resn atom1_label \<or> str_in solvent_resn atom2_label
      then residue_vs_water_loop hbonds solvent_resn
             (residue_hbonds, water_hbonds @ [(frame_idx, atom1_label, atom2_label, itype)])
      else residue_vs_water_loop hbonds solvent_resn
             (residue_hbonds @ [(frame_idx, atom1_label, atom2_label, itype)], water_hbonds))"

definition residue_vs_water_hbonds :: "hbond list \<Rightarrow> string \<Rightarrow> hbond list \<times> hbond list" where
  "residue_vs_water_hbonds hbonds solvent_resn =
     residue_vs_water_loop hbonds solvent_resn ([], [])"

subsection \<open>stratify\_residue\_hbonds\<close>

definition backbone_atoms :: "string list" where
  "backbone_atoms = [''N'', ''O'']"

fun stratify_residue_loop ::
  "hbond list \<Rightarrow> contact list \<times> contact list \<times> contact list \<Rightarrow>
   py_error + (contact list \<times> contact list \<times> contact list)" where
  "stratify_residue_loop [] acc = Inr acc"
| "stratify_residue_loop ((frame_idx, atom1_label, atom2_label, itype) # residue_hbonds)
       (hbss, hbsb, hbbb) =
     (case py_index (py_split CHR '':'' atom1_label) 3 of
        Inl e \<Rightarrow> Inl e
      | Inr atom1 \<Rightarrow>
     (case py_index (py_split CHR '':'' atom2_label) 3 of
        Inl e \<Rightarrow> Inl e
      | Inr atom2 \<Rightarrow>
          stratify_residue_loop residue_hbonds
            (if atom1 \<notin> set backbone_atoms \<and> atom2 \<notin> set backbone_atoms
             then hbss @ [(frame_idx, [atom1_label, atom2_label, ''hbss''])] else hbss,
             if (atom1 \<notin> set backbone_atoms \<and> atom2 \<in> set backbone_atoms)
                \<or> (atom1 \<in> set backbone_atoms \<and> atom2 \<notin> set backbone_atoms)
             then hbsb @ [(frame_idx, [atom1_label, atom2_label, ''hbsb''])] else hbsb,
             if atom1 \<in> set backbone_atoms \<and> atom2 \<in> set backbone_atoms
             then hbbb @ [(frame_idx, [atom1_label, atom2_label, ''hbbb''])] else hbbb)))"

definition stratify_residue_hbonds ::
  "hbond list \<Rightarrow> py_error + (contact list \<times> contact list \<times> contact list)" where
  "stratify_residue_hbonds residue_hbonds = stratify_residue_loop residue_hbonds ([], [], [])"

subsection \<open>calc\_water\_to\_residues\_map\<close>

text \<open>
  The local variables of the first loop. \<open>frame_idx\<close>, \<open>water\<close> and \<open>protein\<close> are
  unbound (\<open>None\<close>) until an iteration assigns them, and keep their value from one
  iteration to the next; reading an unbound local raises \<open>UnboundLocalError\<close>.
\<close>

record wtr_locals =
  water_to_residues_var :: "(label \<times> label set) list"
  solvent_bridges_var :: "(label \<times> label) list"
  frame_idx_var :: "int option"
  water_var :: "label option"
  protein_var :: "label option"

definition wtr_init :: wtr_locals where
  "wtr_init = \<lparr>water_to_residues_var = [], solvent_bridges_var = [], frame_idx_var = None,
               water_var = None, protein_var = None\<rparr>"

text \<open>One iteration of the loop over \<open>water_hbonds\<close>.\<close>

definition wtr_step :: "string \<Rightarrow> hbond \<Rightarrow> wtr_locals \<Rightarrow> py_error + wtr_locals" where
  "wtr_step solvent_resn hbond st =
     (case hbond of (frame_idx, atom1_label, atom2_label, itype) \<Rightarrow>
      let st1 = st\<lparr>frame_idx_var := Some frame_idx\<rparr> in
      if str_in solvent_resn atom1_label \<and> str_in solvent_resn atom2_label
      then Inr (st1\<lparr>solvent_bridges_var :=
                      solvent_bridges_var st1 @ [(atom1_label, atom2_label)]\<rparr>)
      else
        let st2 =
              (if str_in solvent_resn atom1_label \<and> \<not> str_in solvent_resn atom2_label
               then st1\<lparr>water_var := Some atom1_label, protein_var := Some atom2_label\<rparr>
               else if \<not> str_in solvent_resn atom1_label \<and> str_in solvent_resn atom2_label
               then st1\<lparr>water_var := Some atom2_label, protein_var := Some atom1_label\<rparr>
               else st1)
        in (case water_var st2 of
              None \<Rightarrow> Inl UnboundLocalError
            | Some water \<Rightarrow>
                (case protein_var st2 of
                   None \<Rightarrow> Inl UnboundLocalError
                 | Some protein \<Rightarrow>
                     Inr (st2\<lparr>water_to_residues_var :=
                                dict_add water protein (water_to_residues_var st2)\<rparr>))))"

fun wtr_loop :: "string \<Rightarrow> hbond list \<Rightarrow> wtr_locals \<Rightarrow> py_error + wtr_locals" where
  "wtr_loop solvent_resn [] st = Inr st"
| "wtr_loop solvent_resn (hbond # water_hbonds) st =
     (case wtr_step solvent_resn hbond st of
        Inl e \<Rightarrow> Inl e
      | Inr st' \<Rightarrow> wtr_loop solvent_resn water_hbonds st')"

text \<open>The second loop: \<open>w1--w2\<close> and \<open>w2--w1\<close> are the same bridge.\<close>

fun dedup_bridges :: "(label \<times> label) list \<Rightarrow> (label \<times> label) set \<Rightarrow> (label \<times> label) set" where
  "dedup_bridges [] solvent_bridges = solvent_bridges"
| "dedup_bridges ((water1, water2) # rest) solvent_bridges =
     dedup_bridges rest
       (if (water1, water2) \<notin> solvent_bridges \<and> (water2, water1) \<notin> solvent_bridges
        then insert (water1, water2) solvent_bridges else solvent_bridges)"

definition calc_water_to_residues_map ::
  "hbond list \<Rightarrow> string \<Rightarrow>
   py_error + (int \<times> (label \<times> label set) list \<times> (label \<times> label) list)" where
  "calc_water_to_residues_map water_hbonds solvent_resn =
     (case wtr_loop solvent_resn water_hbonds wtr_init of
        Inl e \<Rightarrow> Inl e
      | Inr st \<Rightarrow>
          let solvent_bridges = sorted_list_of_set (dedup_bridges (solvent_bridges_var st) {})
          in (case frame_idx_var st of
                None \<Rightarrow> Inl UnboundLocalError
              | Some frame_idx \<Rightarrow> Inr (frame_idx, water_to_residues_var st, solvent_bridges)))"

subsection \<open>stratify\_water\_bridge\<close>

text \<open>\<open>itertools.combinations(xs, 2)\<close>: the pairs of positions \<open>i < j\<close>, in order.\<close>

fun combinations2 :: "'a list \<Rightarrow> ('a \<times> 'a) list" where
  "combinations2 [] = []"
| "combinations2 (x # xs) = map (Pair x) xs @ combinations2 xs"

text \<open>The inner loop over the pairs of one water, and the outer loop over the waters.\<close>

fun water_bridge_pairs ::
  "int \<Rightarrow> label \<Rightarrow> (label \<times> label) list \<Rightarrow> contact set \<Rightarrow> contact set" where
  "water_bridge_pairs frame_idx water [] water_bridges = water_bridges"
| "water_bridge_pairs frame_idx water ((res_atom1, res_atom2) # rest) water_bridges =
     water_bridge_pairs frame_idx water rest
       (if res_atom1 \<noteq> res_atom2
        then insert (frame_idx, [res_atom1, water, res_atom2, ''wb'']) water_bridges
        else water_bridges)"

fun water_bridge_loop ::
  "int \<Rightarrow> (label \<times> label set) list \<Rightarrow> contact set \<Rightarrow> contact set" where
  "water_bridge_loop frame_idx [] water_bridges = water_bridges"
| "water_bridge_loop frame_idx ((water, residues) # rest) water_bridges =
     water_bridge_loop frame_idx rest
       (water_bridge_pairs frame_idx water
          (combinations2 (sorted_list_of_set residues)) water_bridges)"

definition stratify_water_bridge :: "hbond list \<Rightarrow> string \<Rightarrow> py_error + contact list" where
  "stratify_water_bridge water_hbonds solvent_resn =
     (case calc_water_to_residues_map water_hbonds solvent_resn of
        Inl e \<Rightarrow> Inl e
      | Inr (frame_idx, water_to_residues, _) \<Rightarrow>
          Inr (sorted_list_of_set (water_bridge_loop frame_idx water_to_residues {})))"

subsection \<open>stratify\_extended\_water\_bridge\<close>

text \<open>
  The two inner loops run over two sets and add to a set, so their order does not show:
  they add the image of the product of the two sets.
\<close>

fun extended_bridge_loop ::
  "int \<Rightarrow> (label \<times> label set) list \<Rightarrow> (label \<times> label) list \<Rightarrow> contact set \<Rightarrow> contact set" where
  "extended_bridge_loop frame_idx water_to_residues [] extended_water_bridges =
     extended_water_bridges"
| "extended_bridge_loop frame_idx water_to_residues ((water1, water2) # rest)
       extended_water_bridges =
     (case (map_of water_to_residues water1, map_of water_to_residues water2) of
        (Some res_atom1_list, Some res_atom2_list) \<Rightarrow>
          extended_bridge_loop frame_idx water_to_residues rest
            (extended_water_bridges \<union>
             (\<lambda>(atom1, atom2). (frame_idx, [atom1, water1, water2, atom2, ''wb2'']))
               ` (res_atom1_list \<times> res_atom2_list))
      | _ \<Rightarrow> extended_bridge_loop frame_idx water_to_residues rest extended_water_bridges)"

definition stratify_extended_water_bridge ::
  "hbond list \<Rightarrow> string \<Rightarrow> py_error + contact list" where
  "stratify_extended_water_bridge water_hbonds solvent_resn =
     (case calc_water_to_residues_map water_hbonds solvent_resn of
        Inl e \<Rightarrow> Inl e
      | Inr (frame_idx, water_to_residues, solvent_bridges) \<Rightarrow>
          Inr (sorted_list_of_set
                 (extended_bridge_loop frame_idx water_to_residues solvent_bridges {})))"

subsection \<open>stratify\_hbond\_subtypes\<close>

definition stratify_hbond_subtypes :: "hbond list \<Rightarrow> string \<Rightarrow> py_error + contact list" where
  "stratify_hbond_subtypes hbonds solvent_resn =
     (case residue_vs_water_hbonds hbonds solvent_resn of
        (residue_hbonds, water_hbonds) \<Rightarrow>
     (case stratify_residue_hbonds residue_hbonds of
        Inl e \<Rightarrow> Inl e
      | Inr (hbss, hbsb, hbbb) \<Rightarrow>
     (case stratify_water_bridge hbonds solvent_resn of
        Inl e \<Rightarrow> Inl e
      | Inr wb \<Rightarrow>
     (case stratify_extended_water_bridge hbonds solvent_resn of
        Inl e \<Rightarrow> Inl e
      | Inr wb2 \<Rightarrow> Inr (hbss @ hbsb @ hbbb @ wb @ wb2)))))"

section \<open>contact\_utils.py: geometry tools\<close>

text \<open>
  A coordinate is a numpy array and a number is an IEEE double. Their arithmetic is not
  modelled. The functions of \<open>numpy\<close> and \<open>math\<close> and the operations of the float
  type that the source calls are the fields of a record, which is a parameter of the
  model as VMD is: \<open>'v\<close> is the type of the arrays and \<open>'f\<close> the type of the floats.
  What is proved for every such record holds of the libraries the program runs on.
  \<open>math.sqrt\<close> and \<open>math.acos\<close> raise \<open>ValueError\<close> outside their domain; the
  other operations return a float or an array (\<open>nan\<close> and \<open>inf\<close> included, numpy
  warns and does not raise). \<open>float_lit\<close> is the float of an integer literal.
\<close>

record ('v, 'f) numeric =
  np_add :: "'v \<Rightarrow> 'v \<Rightarrow> 'v"
  np_sub :: "'v \<Rightarrow> 'v \<Rightarrow> 'v"
  np_div :: "'v \<Rightarrow> 'f \<Rightarrow> 'v"
  np_dot :: "'v \<Rightarrow> 'v \<Rightarrow> 'f"
  np_cross :: "'v \<Rightarrow> 'v \<Rightarrow> 'v"
  np_linalg_norm :: "'v \<Rightarrow> 'f"
  math_sqrt :: "'f \<Rightarrow> py_error + 'f"
  math_acos :: "'f \<Rightarrow> py_error + 'f"
  math_degrees :: "'f \<Rightarrow> 'f"
  math_fabs :: "'f \<Rightarrow> 'f"
  float_mul :: "'f \<Rightarrow> 'f \<Rightarrow> 'f"
  float_div :: "'f \<Rightarrow> 'f \<Rightarrow> 'f"
  float_sub :: "'f \<Rightarrow> 'f \<Rightarrow> 'f"
  float_lt :: "'f \<Rightarrow> 'f \<Rightarrow> bool"
  float_gt :: "'f \<Rightarrow> 'f \<Rightarrow> bool"
  float_lit :: "int \<Rightarrow> 'f"

text \<open>The builtin \<open>min(x, y)\<close>: \<open>y\<close> replaces \<open>x\<close> when \<open>y < x\<close>.\<close>

definition py_min :: "('v, 'f) numeric \<Rightarrow> 'f \<Rightarrow> 'f \<Rightarrow> 'f" where
  "py_min lib x y = (if float_lt lib y x then y else x)"

definition points_to_vector :: "('v, 'f) numeric \<Rightarrow> 'v \<Rightarrow> 'v \<Rightarrow> 'v" where
  "points_to_vector lib point1 point2 = np_sub lib point2 point1"

definition calc_vector_length :: "('v, 'f) numeric \<Rightarrow> 'v \<Rightarrow> py_error + 'f" where
  "calc_vector_length lib vector = math_sqrt lib (np_dot lib vector vector)"

text \<open>
  The dot product is computed first, then the two lengths, their product, the quotient
  (a numpy division, which does not raise on zero) and its arc cosine.
\<close>

definition calc_angle_between_vectors ::
  "('v, 'f) numeric \<Rightarrow> 'v \<Rightarrow> 'v \<Rightarrow> py_error + 'f" where
  "calc_angle_between_vectors lib vector1 vector2 =
     (let d = np_dot lib vector1 vector2 in
      case calc_vector_length lib vector1 of
        Inl e \<Rightarrow> Inl e
      | Inr length1 \<Rightarrow>
     (case calc_vector_length lib vector2 of
        Inl e \<Rightarrow> Inl e
      | Inr length2 \<Rightarrow>
     (case math_acos lib (float_div lib d (float_mul lib length1 length2)) of
        Inl e \<Rightarrow> Inl e
      | Inr radians_between_vectors \<Rightarrow> Inr (math_degrees lib radians_between_vectors))))"

definition calc_geom_distance :: "('v, 'f) numeric \<Rightarrow> 'v \<Rightarrow> 'v \<Rightarrow> 'f" where
  "calc_geom_distance lib point1 point2 = np_linalg_norm lib (np_sub lib point1 point2)"

definition calc_geom_centroid :: "('v, 'f) numeric \<Rightarrow> 'v \<Rightarrow> 'v \<Rightarrow> 'v \<Rightarrow> 'v" where
  "calc_geom_centroid lib point1 point2 point3 =
     np_div lib (np_add lib (np_add lib point1 point2) point3) (float_lit lib 3)"

definition calc_geom_normal_vector :: "('v, 'f) numeric \<Rightarrow> 'v \<Rightarrow> 'v \<Rightarrow> 'v \<Rightarrow> 'v" where
  "calc_geom_normal_vector lib point1 point2 point3 =
     np_cross lib (np_sub lib point3 point1) (np_sub lib point2 point1)"

text \<open>
  \<open>get_coord\<close> asks VMD for the coordinates of the atom whose index is the last field
  of the label. VMD at the frame of the call is the function \<open>vmd\<close> from the index
  field to the array of the coordinates.
\<close>

definition get_coord :: "(string \<Rightarrow> 'v) \<Rightarrow> label \<Rightarrow> 'v" where
  "get_coord vmd atom_label = vmd (last (py_split CHR '':'' atom_label))"

section \<open>pi\_cation.py\<close>

definition DISTANCE_CUTOFF :: "('v, 'f) numeric \<Rightarrow> 'f" where
  "DISTANCE_CUTOFF lib = float_lit lib 6"

definition ANGLE_CUTOFF :: "('v, 'f) numeric \<Rightarrow> 'f" where
  "ANGLE_CUTOFF lib = float_lit lib 60"

text \<open>
  The first loop groups the contact pairs that VMD's \<open>measure contacts\<close> returned
  (already parsed into index pairs) by cation label and residue id of the aromatic atom.
  \<open>":".join(s)\<close> of a string \<open>s\<close> joins its characters.
\<close>

fun grouping_loop ::
  "(int \<Rightarrow> label option) \<Rightarrow> (int \<times> int) list \<Rightarrow> (string \<times> label set) list \<Rightarrow>
   py_error + (string \<times> label set) list" where
  "grouping_loop index_to_label [] pi_cation_aromatic_grouping = Inr pi_cation_aromatic_grouping"
| "grouping_loop index_to_label ((cation_index, aromatic_index) # rest)
       pi_cation_aromatic_grouping =
     (case index_to_label cation_index of
        None \<Rightarrow> Inl KeyError
      | Some cation_label \<Rightarrow>
     (case index_to_label aromatic_index of
        None \<Rightarrow> Inl KeyError
      | Some aromatic_label \<Rightarrow>
     (case py_index (py_split CHR '':'' aromatic_label) 2 of
        Inl e \<Rightarrow> Inl e
      | Inr resid \<Rightarrow>
          grouping_loop index_to_label rest
            (dict_add (cation_label @ '':'' @ py_join '':'' (map (\<lambda>c. [c]) resid))
               aromatic_label pi_cation_aromatic_grouping))))"

text \<open>
  The body of the second loop for one key of the grouping: the contacts that it appends
  to \<open>pi_cations\<close>. The three labels are the elements of the sorted list of a set of
  three elements. Line 106 is
  \<open>min(math.fabs(a - 0), math.fabs(a - 180))\<close>.
\<close>

definition pi_cation_group ::
  "('v, 'f) numeric \<Rightarrow> (string \<Rightarrow> 'v) \<Rightarrow> int \<Rightarrow> string \<times> label set \<Rightarrow>
   py_error + contact list" where
  "pi_cation_group lib vmd frame_idx grp =
     (case grp of (pi_cation_aromatic_res_key, aromatic_atom_labels) \<Rightarrow>
      let cation_atom_label =
            py_join '':'' (take 5 (py_split CHR '':'' pi_cation_aromatic_res_key))
      in
      if card aromatic_atom_labels \<noteq> 3 then Inr []
      else
        let sorted_labels = sorted_list_of_set aromatic_atom_labels;
            arom_atom1_label = sorted_labels ! 0;
            arom_atom2_label = sorted_labels ! 1;
            arom_atom3_label = sorted_labels ! 2;
            cation_coord = get_coord vmd cation_atom_label;
            arom_atom1_coord = get_coord vmd arom_atom1_label;
            arom_atom2_coord = get_coord vmd arom_atom2_label;
            arom_atom3_coord = get_coord vmd arom_atom3_label;
            aromatic_centroid =
              calc_geom_centroid lib arom_atom1_coord arom_atom2_coord arom_atom3_coord;
            cation_to_centroid_distance =
              calc_geom_distance lib cation_coord aromatic_centroid
        in
        if float_gt lib cation_to_centroid_distance (DISTANCE_CUTOFF lib) then Inr []
        else
          let aromatic_plane_norm_vec =
                calc_geom_normal_vector lib arom_atom1_coord arom_atom2_coord arom_atom3_coord;
              aromatic_center_to_cation_vec =
                points_to_vector lib aromatic_centroid cation_coord
          in
          (case calc_angle_between_vectors lib aromatic_plane_norm_vec
                  aromatic_center_to_cation_vec of
             Inl e \<Rightarrow> Inl e
           | Inr angle \<Rightarrow>
               let cation_norm_offset_angle =
                     py_min lib (math_fabs lib (float_sub lib angle (float_lit lib 0)))
                       (math_fabs lib (float_sub lib angle (float_lit lib 180)))
               in
               if float_gt lib cation_norm_offset_angle (ANGLE_CUTOFF lib) then Inr []
               else Inr [(frame_idx, [cation_atom_label, arom_atom1_label, ''pc'']),
                         (frame_idx, [cation_atom_label, arom_atom2_label, ''pc'']),
                         (frame_idx, [cation_atom_label, arom_atom2_label, ''pc''])]))"

fun pi_cation_loop ::
  "('v, 'f) numeric \<Rightarrow> (string \<Rightarrow> 'v) \<Rightarrow> int \<Rightarrow> (string \<times> label set) list \<Rightarrow>
   contact list \<Rightarrow> py_error + contact list" where
  "pi_cation_loop lib vmd frame_idx [] pi_cations = Inr pi_cations"
| "pi_cation_loop lib vmd frame_idx (grp # rest) pi_cations =
     (case pi_cation_group lib vmd frame_idx grp of
        Inl e \<Rightarrow> Inl e
      | Inr contacts \<Rightarrow> pi_cation_loop lib vmd frame_idx rest (pi_cations @ contacts))"

text \<open>
  \<open>compute_pi_cation\<close>, from the parsed contacts on: \<open>vmd\<close> and
  \<open>contact_index_pairs\<close> stand for what VMD answers for the molecule, frame and
  chain of the call.
\<close>

definition compute_pi_cation ::
  "('v, 'f) numeric \<Rightarrow> (string \<Rightarrow> 'v) \<Rightarrow> (int \<times> int) list \<Rightarrow> int \<Rightarrow>
   (int \<Rightarrow> label option) \<Rightarrow> py_error + contact list" where
  "compute_pi_cation lib vmd contact_index_pairs frame_idx index_to_label =
     (case grouping_loop index_to_label contact_index_pairs [] of
        Inl e \<Rightarrow> Inl e
      | Inr pi_cation_aromatic_grouping \<Rightarrow>
          pi_cation_loop lib vmd frame_idx pi_cation_aromatic_grouping [])"

section \<open>Predicates of the statements\<close>

text \<open>
  The fields of a label, read the way the source reads them, and the words of the
  specification about them.
\<close>

text \<open>
  The second field of a label, and the partition step in the words of the specification:
  the solvent residue name is matched against the resname field of either label, and
  against nothing else.
\<close>

definition resname_field :: "label \<Rightarrow> string" where
  "resname_field atom_label = (case py_split CHR '':'' atom_label of
      chain # resname # rest \<Rightarrow> resname | _ \<Rightarrow> [])"

definition spec_water_involving :: "string \<Rightarrow> hbond \<Rightarrow> bool" where
  "spec_water_involving solvent_resn hbond =
     (case hbond of (frame_idx, atom1_label, atom2_label, itype) \<Rightarrow>
        str_in solvent_resn (resname_field atom1_label)
        \<or> str_in solvent_resn (resname_field atom2_label))"

text \<open>
  The fourth field of a label, which \<open>stratify_residue_hbonds\<close> reads as
  \<open>split(":")[3]\<close>; it exists when the label has at least four fields. An atom is a
  backbone atom when that field is \<open>N\<close> or \<open>O\<close>.
\<close>

definition atom_name_field :: "label \<Rightarrow> string" where
  "atom_name_field atom_label = py_split CHR '':'' atom_label ! 3"

definition has_name_field :: "label \<Rightarrow> bool" where
  "has_name_field atom_label = (4 \<le> length (py_split CHR '':'' atom_label))"

definition is_backbone :: "label \<Rightarrow> bool" where
  "is_backbone atom_label = (atom_name_field atom_label = ''N'' \<or> atom_name_field atom_label = ''O'')"

definition backbone_count :: "hbond \<Rightarrow> nat" where
  "backbone_count hbond =
     (case hbond of (frame_idx, atom1_label, atom2_label, itype) \<Rightarrow>
        (if is_backbone atom1_label then 1 else 0) + (if is_backbone atom2_label then 1 else 0))"

text \<open>The contact that a hydrogen bond becomes in the class \<open>subtype\<close>.\<close>

definition retag :: "string \<Rightarrow> hbond \<Rightarrow> contact" where
  "retag subtype hbond =
     (case hbond of (frame_idx, atom1_label, atom2_label, itype) \<Rightarrow>
        (frame_idx, [atom1_label, atom2_label, subtype]))"

definition well_formed :: "hbond \<Rightarrow> bool" where
  "well_formed hbond =
     (case hbond of (frame_idx, atom1_label, atom2_label, itype) \<Rightarrow>
        has_name_field atom1_label \<and> has_name_field atom2_label)"

text \<open>The test of line 34 of \<open>stratify_hbonds.py\<close>.\<close>

definition touches_solvent :: "string \<Rightarrow> hbond \<Rightarrow> bool" where
  "touches_solvent solvent_resn hbond =
     (case hbond of (frame_idx, atom1_label, atom2_label, itype) \<Rightarrow>
        str_in solvent_resn atom1_label \<or> str_in solvent_resn atom2_label)"

text \<open>
  A hydrogen bond between a water and a residue atom: exactly one label contains the
  solvent residue name. These are the hydrogen bonds that assign \<open>water\<close> and
  \<open>protein\<close> in \<open>calc_water_to_residues_map\<close>; the pair is the one assigned.
\<close>

definition water_residue_pair :: "string \<Rightarrow> hbond \<Rightarrow> (label \<times> label) option" where
  "water_residue_pair solvent_resn hbond =
     (case hbond of (frame_idx, atom1_label, atom2_label, itype) \<Rightarrow>
        if str_in solvent_resn atom1_label \<and> \<not> str_in solvent_resn atom2_label
        then Some (atom1_label, atom2_label)
        else if \<not> str_in solvent_resn atom1_label \<and> str_in solvent_resn atom2_label
        then Some (atom2_label, atom1_label)
        else None)"

text \<open>
  Once a water-residue hydrogen bond has been seen, \<open>water\<close> and \<open>protein\<close> are bound
  to a pair that is in the map.
\<close>

definition bound_pair :: "wtr_locals \<Rightarrow> bool" where
  "bound_pair st \<longleftrightarrow>
     (\<exists>w p S. water_var st = Some w \<and> protein_var st = Some p
        \<and> map_of (water_to_residues_var st) w = Some S \<and> p \<in> S)"

text \<open>
  What holds of every dictionary that the loops build: the keys are distinct, and the
  sets are finite and not empty.
\<close>

definition dict_inv :: "('k \<times> 'v set) list \<Rightarrow> bool" where
  "dict_inv d \<longleftrightarrow> distinct (map fst d) \<and> (\<forall>(k, S) \<in> set d. finite S \<and> S \<noteq> {})"

text \<open>
  The cation label that the second loop of \<open>compute_pi_cation\<close> reads off a key
  (line 84), and the atoms of the sorted triplet.
\<close>

definition cation_label_of_key :: "string \<Rightarrow> label" where
  "cation_label_of_key pi_cation_aromatic_res_key =
     py_join '':'' (take 5 (py_split CHR '':'' pi_cation_aromatic_res_key))"

definition ring_atom :: "label set \<Rightarrow> nat \<Rightarrow> label" where
  "ring_atom aromatic_atom_labels i = sorted_list_of_set aromatic_atom_labels ! i"


text \<open>
  A frame with one lysine nitrogen above the centre of one phenylalanine ring, used to
  run the detector: the labels of the four atoms and their coordinates by index. On
  this frame every number that the detector computes is a small integer or \<open>pi\<close>
  (the lengths are 9 and 3, the distance is 3, the cosine is \<open>-1\<close>), so the
  libraries computed exactly give what they give in doubles. \<open>exact\<close> is that
  arithmetic, on triples of reals; it is used on this frame only.
\<close>

type_synonym vec = "real \<times> real \<times> real"

fun vec_add :: "vec \<Rightarrow> vec \<Rightarrow> vec" where
  "vec_add (x1, y1, z1) (x2, y2, z2) = (x1 + x2, y1 + y2, z1 + z2)"

fun vec_sub :: "vec \<Rightarrow> vec \<Rightarrow> vec" where
  "vec_sub (x1, y1, z1) (x2, y2, z2) = (x1 - x2, y1 - y2, z1 - z2)"

fun vec_div :: "vec \<Rightarrow> real \<Rightarrow> vec" where
  "vec_div (x, y, z) c = (x / c, y / c, z / c)"

fun vec_dot :: "vec \<Rightarrow> vec \<Rightarrow> real" where
  "vec_dot (x1, y1, z1) (x2, y2, z2) = x1 * x2 + y1 * y2 + z1 * z2"

fun vec_cross :: "vec \<Rightarrow> vec \<Rightarrow> vec" where
  "vec_cross (x1, y1, z1) (x2, y2, z2) =
     (y1 * z2 - z1 * y2, z1 * x2 - x1 * z2, x1 * y2 - y1 * x2)"

definition exact :: "(vec, real) numeric" where
  "exact =
     \<lparr>np_add = vec_add, np_sub = vec_sub, np_div = vec_div, np_dot = vec_dot,
      np_cross = vec_cross, np_linalg_norm = (\<lambda>v. sqrt (vec_dot v v)),
      math_sqrt = (\<lambda>x. if x < 0 then Inl ValueError else Inr (sqrt x)),
      math_acos = (\<lambda>x. if x < - 1 \<or> 1 < x then Inl ValueError else Inr (arccos x)),
      math_degrees = (\<lambda>x. x * 180 / pi), math_fabs = abs,
      float_mul = (*), float_div = (/), float_sub = (-),
      float_lt = (<), float_gt = (\<lambda>x y. y < x), float_lit = real_of_int\<rparr>"

definition ring_labels :: "int \<Rightarrow> label option" where
  "ring_labels = map_of [(5, ''A:LYS:10:NZ:5''), (50, ''B:PHE:20:CG:50''),
                         (54, ''B:PHE:20:CE1:54''), (55, ''B:PHE:20:CE2:55'')]"

definition ring_frame :: "string \<Rightarrow> vec" where
  "ring_frame index =
     (if index = ''50'' then (0, 0, 0)
      else if index = ''54'' then (3, 0, 0)
      else if index = ''55'' then (0, 3, 0)
      else (1, 1, 3))"

section \<open>Properties\<close>

subsection \<open>The empty list of hydrogen bonds\<close>

lemma calc_water_to_residues_map_Nil:
  "calc_water_to_residues_map [] solvent_resn = Inl UnboundLocalError"
  by (simp add: calc_water_to_residues_map_def wtr_init_def)

text \<open>
  C9. On the empty list \<open>stratify_hbond_subtypes\<close> does not return the empty list:
  \<open>calc_water_to_residues_map\<close> returns its loop variable \<open>frame_idx\<close>, which a loop
  over no element never binds, and the call raises \<open>UnboundLocalError\<close>.
\<close>

theorem stratify_hbond_subtypes_empty_unbound:
  "stratify_hbond_subtypes [] solvent_resn = Inl UnboundLocalError
   \<and> stratify_hbond_subtypes [] solvent_resn \<noteq> Inr []
   \<and> calc_water_to_residues_map [] solvent_resn = Inl UnboundLocalError"
  by (simp add: stratify_hbond_subtypes_def residue_vs_water_hbonds_def
        stratify_residue_hbonds_def stratify_water_bridge_def calc_water_to_residues_map_Nil)

theorem stratify_hbond_subtypes_empty_unbound_witness:
  "stratify_hbond_subtypes [] ''TIP3'' = Inl UnboundLocalError"
  using stratify_hbond_subtypes_empty_unbound [of "''TIP3''"] by simp

subsection \<open>Substrings\<close>

lemma startswith_iff: "startswith s p \<longleftrightarrow> (\<exists>q. s = p @ q)"
  by (induction s p rule: startswith.induct) auto

lemma str_in_iff: "str_in sub s \<longleftrightarrow> (\<exists>p q. s = p @ sub @ q)"
proof (induction s)
  case Nil
  then show ?case by auto
next
  case (Cons c cs)
  show ?case
  proof
    assume "str_in sub (c # cs)"
    then consider "startswith (c # cs) sub" | "str_in sub cs" by auto
    then show "\<exists>p q. c # cs = p @ sub @ q"
    proof cases
      case 1
      then obtain q where "c # cs = sub @ q" by (auto simp: startswith_iff)
      then have "c # cs = [] @ sub @ q" by simp
      then show ?thesis by blast
    next
      case 2
      then obtain p q where "cs = p @ sub @ q" using Cons.IH by blast
      then have "c # cs = (c # p) @ sub @ q" by simp
      then show ?thesis by blast
    qed
  next
    assume "\<exists>p q. c # cs = p @ sub @ q"
    then obtain p q where pq: "c # cs = p @ sub @ q" by blast
    show "str_in sub (c # cs)"
    proof (cases p)
      case Nil
      with pq have "startswith (c # cs) sub" by (auto simp: startswith_iff)
      then show ?thesis by simp
    next
      case (Cons a p')
      with pq have "cs = p' @ sub @ q" by simp
      then have "str_in sub cs" using Cons.IH by blast
      then show ?thesis by simp
    qed
  qed
qed

subsection \<open>The partition into residue and water hydrogen bonds\<close>

lemma residue_vs_water_loop_filter:
  "residue_vs_water_loop hbonds s (r, w) =
     (r @ filter (\<lambda>h. \<not> touches_solvent s h) hbonds, w @ filter (touches_solvent s) hbonds)"
proof (induction hbonds arbitrary: r w)
  case Nil
  then show ?case by simp
next
  case (Cons h hbonds)
  obtain f a1 a2 t where h: "h = (f, a1, a2, t)" by (cases h) auto
  show ?case
  proof (cases "touches_solvent s h")
    case True
    then have "residue_vs_water_loop (h # hbonds) s (r, w) =
        residue_vs_water_loop hbonds s (r, w @ [h])"
      by (simp add: h touches_solvent_def)
    with True show ?thesis by (simp add: Cons.IH)
  next
    case False
    then have "residue_vs_water_loop (h # hbonds) s (r, w) =
        residue_vs_water_loop hbonds s (r @ [h], w)"
      by (simp add: h touches_solvent_def)
    with False show ?thesis by (simp add: Cons.IH)
  qed
qed

text \<open>
  C2, amended. \<open>residue_vs_water_hbonds\<close> classifies a hydrogen bond as
  water-involving if and only if the solvent residue name occurs as a contiguous
  substring anywhere in the label of either atom, whatever the field; all the other
  hydrogen bonds are residue-residue, and both lists keep the order of the input.
\<close>

theorem residue_vs_water_partition:
  "residue_vs_water_hbonds hbonds solvent_resn =
     (filter (\<lambda>h. \<not> touches_solvent solvent_resn h) hbonds,
      filter (touches_solvent solvent_resn) hbonds)
   \<and> (touches_solvent solvent_resn (frame_idx, atom1_label, atom2_label, itype) \<longleftrightarrow>
        (\<exists>p q. atom1_label = p @ solvent_resn @ q) \<or> (\<exists>p q. atom2_label = p @ solvent_resn @ q))"
  by (simp add: residue_vs_water_hbonds_def residue_vs_water_loop_filter touches_solvent_def
        str_in_iff)

theorem residue_vs_water_partition_witness:
  "residue_vs_water_hbonds
     [(1, ''A:LYS:10:NZ:5'', ''W:TIP3:20:OH2:50'', ''hb''), (1, ''A:LYS:10:NZ:5'', ''B:PHE:20:CG:50'', ''hb'')] ''TIP3''
   = ([(1, ''A:LYS:10:NZ:5'', ''B:PHE:20:CG:50'', ''hb'')], [(1, ''A:LYS:10:NZ:5'', ''W:TIP3:20:OH2:50'', ''hb'')])"
  using residue_vs_water_partition [of "[(1, ''A:LYS:10:NZ:5'', ''W:TIP3:20:OH2:50'', ''hb''), (1, ''A:LYS:10:NZ:5'', ''B:PHE:20:CG:50'', ''hb'')]" "''TIP3''"]
  by (simp add: touches_solvent_def)

text \<open>
  C2 as the specification words it fails: with the solvent residue \<open>W\<close>, a hydrogen
  bond between an alanine atom of chain \<open>W\<close> and a glycine atom is classified as
  water-involving, although the solvent name occurs in the resname field of neither
  label.
\<close>

theorem residue_vs_water_counterexample:
  "snd (residue_vs_water_hbonds [(1, ''W:ALA:1:N:5'', ''A:GLY:2:O:9'', ''hb'')] ''W'')
     = [(1, ''W:ALA:1:N:5'', ''A:GLY:2:O:9'', ''hb'')]
   \<and> \<not> spec_water_involving ''W'' (1, ''W:ALA:1:N:5'', ''A:GLY:2:O:9'', ''hb'')
   \<and> resname_field ''W:ALA:1:N:5'' = ''ALA'' \<and> resname_field ''A:GLY:2:O:9'' = ''GLY''"
  by (simp add: residue_vs_water_hbonds_def spec_water_involving_def resname_field_def)

subsection \<open>The three classes of residue-residue hydrogen bonds\<close>

lemma stratify_residue_step:
  assumes "has_name_field a1" "has_name_field a2"
  shows "stratify_residue_loop ((f, a1, a2, t) # hs) (A, B, C) =
     stratify_residue_loop hs
       (if backbone_count (f, a1, a2, t) = 0 then A @ [retag ''hbss'' (f, a1, a2, t)] else A,
        if backbone_count (f, a1, a2, t) = 1 then B @ [retag ''hbsb'' (f, a1, a2, t)] else B,
        if backbone_count (f, a1, a2, t) = 2 then C @ [retag ''hbbb'' (f, a1, a2, t)] else C)"
  using assms
  by (simp add: py_index_def has_name_field_def backbone_count_def is_backbone_def
        atom_name_field_def backbone_atoms_def retag_def)

lemma stratify_residue_loop_filter:
  assumes "\<forall>h \<in> set hs. well_formed h"
  shows "stratify_residue_loop hs (A, B, C) =
     Inr (A @ map (retag ''hbss'') (filter (\<lambda>h. backbone_count h = 0) hs),
          B @ map (retag ''hbsb'') (filter (\<lambda>h. backbone_count h = 1) hs),
          C @ map (retag ''hbbb'') (filter (\<lambda>h. backbone_count h = 2) hs))"
  using assms
proof (induction hs arbitrary: A B C)
  case Nil
  then show ?case by simp
next
  case (Cons h hs)
  obtain f a1 a2 t where h: "h = (f, a1, a2, t)" by (cases h) auto
  from Cons.prems h have wf: "has_name_field a1" "has_name_field a2"
    by (auto simp: well_formed_def)
  from Cons.prems have rest: "\<forall>h \<in> set hs. well_formed h" by simp
  show ?case
    unfolding h stratify_residue_step [OF wf] Cons.IH [OF rest]
    by simp
qed

lemma backbone_count_le: "backbone_count h \<le> 2"
  by (cases h) (auto simp: backbone_count_def)

lemma three_way_length:
  "length (filter (\<lambda>h. backbone_count h = 0) hs) + length (filter (\<lambda>h. backbone_count h = 1) hs)
   + length (filter (\<lambda>h. backbone_count h = 2) hs) = length hs"
proof (induction hs)
  case Nil
  then show ?case by simp
next
  case (Cons h hs)
  have "backbone_count h = 0 \<or> backbone_count h = 1 \<or> backbone_count h = 2"
    using backbone_count_le [of h] by arith
  with Cons show ?case by auto
qed

lemma retag_inj: "retag s h = retag s' h' \<Longrightarrow> s = s'"
  by (cases h; cases h') (simp add: retag_def)

text \<open>
  C3. For a list of residue-residue hydrogen bonds whose labels have an atom-name field,
  \<open>stratify_residue_hbonds\<close> returns three lists: \<open>hbss\<close> holds, in order, the
  hydrogen bonds with no backbone atom, \<open>hbsb\<close> those with exactly one and
  \<open>hbbb\<close> those with two. Every hydrogen bond goes to exactly one of them: the
  lengths add up to the length of the input, and no contact is in two classes.
\<close>

theorem stratify_residue_hbonds_partition:
  assumes "\<forall>h \<in> set residue_hbonds. well_formed h"
  shows "\<exists>hbss hbsb hbbb.
     stratify_residue_hbonds residue_hbonds = Inr (hbss, hbsb, hbbb)
     \<and> hbss = map (retag ''hbss'') (filter (\<lambda>h. backbone_count h = 0) residue_hbonds)
     \<and> hbsb = map (retag ''hbsb'') (filter (\<lambda>h. backbone_count h = 1) residue_hbonds)
     \<and> hbbb = map (retag ''hbbb'') (filter (\<lambda>h. backbone_count h = 2) residue_hbonds)
     \<and> length hbss + length hbsb + length hbbb = length residue_hbonds
     \<and> set hbss \<inter> set hbsb = {} \<and> set hbss \<inter> set hbbb = {} \<and> set hbsb \<inter> set hbbb = {}"
proof -
  have "stratify_residue_hbonds residue_hbonds =
     Inr (map (retag ''hbss'') (filter (\<lambda>h. backbone_count h = 0) residue_hbonds),
          map (retag ''hbsb'') (filter (\<lambda>h. backbone_count h = 1) residue_hbonds),
          map (retag ''hbbb'') (filter (\<lambda>h. backbone_count h = 2) residue_hbonds))"
    unfolding stratify_residue_hbonds_def
    using stratify_residue_loop_filter [OF assms, of "[]" "[]" "[]"] by simp
  moreover have "set (map (retag ''hbss'') xs) \<inter> set (map (retag ''hbsb'') ys) = {}" for xs ys
    by (auto dest: retag_inj)
  moreover have "set (map (retag ''hbss'') xs) \<inter> set (map (retag ''hbbb'') ys) = {}" for xs ys
    by (auto dest: retag_inj)
  moreover have "set (map (retag ''hbsb'') xs) \<inter> set (map (retag ''hbbb'') ys) = {}" for xs ys
    by (auto dest: retag_inj)
  moreover have "length (map (retag ''hbss'') (filter (\<lambda>h. backbone_count h = 0) residue_hbonds))
      + length (map (retag ''hbsb'') (filter (\<lambda>h. backbone_count h = 1) residue_hbonds))
      + length (map (retag ''hbbb'') (filter (\<lambda>h. backbone_count h = 2) residue_hbonds))
      = length residue_hbonds"
    using three_way_length [of residue_hbonds] by (simp only: length_map)
  ultimately show ?thesis
    by (intro exI conjI) (assumption | rule refl)+
qed

theorem stratify_residue_hbonds_partition_witness:
  "stratify_residue_hbonds
     [(1, ''A:LYS:10:NZ:5'', ''B:PHE:20:CG:50'', ''hb''),
      (1, ''A:LYS:10:N:1'', ''B:PHE:20:CG:50'', ''hb''),
      (1, ''A:LYS:10:N:1'', ''B:PHE:20:O:59'', ''hb'')]
   = Inr ([(1, [''A:LYS:10:NZ:5'', ''B:PHE:20:CG:50'', ''hbss''])],
          [(1, [''A:LYS:10:N:1'', ''B:PHE:20:CG:50'', ''hbsb''])],
          [(1, [''A:LYS:10:N:1'', ''B:PHE:20:O:59'', ''hbbb''])])"
proof -
  let ?hs = "[(1, ''A:LYS:10:NZ:5'', ''B:PHE:20:CG:50'', ''hb''),
      (1, ''A:LYS:10:N:1'', ''B:PHE:20:CG:50'', ''hb''),
      (1, ''A:LYS:10:N:1'', ''B:PHE:20:O:59'', ''hb'')] :: hbond list"
  have wf: "\<forall>h \<in> set ?hs. well_formed h"
    by (simp add: well_formed_def has_name_field_def)
  show ?thesis
    using stratify_residue_hbonds_partition [OF wf]
    by (simp add: backbone_count_def is_backbone_def atom_name_field_def retag_def)
qed

subsection \<open>Dictionaries\<close>

lemma map_of_dict_add:
  "map_of (dict_add k v d) =
     (map_of d)(k \<mapsto> insert v (case map_of d k of None \<Rightarrow> {} | Some S \<Rightarrow> S))"
  by (induction d) (auto simp: fun_eq_iff)

lemma dict_add_absorb: "map_of d k = Some S \<Longrightarrow> v \<in> S \<Longrightarrow> dict_add k v d = d"
  by (induction d) (auto simp: insert_absorb split: if_splits)

lemma keys_dict_add:
  "map fst (dict_add k v d) = (if k \<in> fst ` set d then map fst d else map fst d @ [k])"
proof (induction d)
  case Nil
  then show ?case by simp
next
  case (Cons x d)
  obtain k' S where x: "x = (k', S)" by (cases x) auto
  show ?case
  proof (cases "k' = k")
    case True
    then show ?thesis by (simp add: x)
  next
    case False
    with Cons show ?thesis by (simp add: x)
  qed
qed

lemma distinct_dict_add: "distinct (map fst d) \<Longrightarrow> distinct (map fst (dict_add k v d))"
  by (simp add: keys_dict_add)

lemma finite_dict_add:
  "\<forall>(k', S) \<in> set d. finite S \<Longrightarrow> \<forall>(k', S) \<in> set (dict_add k v d). finite S"
  by (induction d) (auto split: if_splits)

subsection \<open>The loop of calc\_water\_to\_residues\_map\<close>

lemma wtr_loop_append:
  "wtr_loop s (xs @ ys) st =
     (case wtr_loop s xs st of Inl e \<Rightarrow> Inl e | Inr st' \<Rightarrow> wtr_loop s ys st')"
  by (induction xs arbitrary: st) (auto split: sum.splits)

text \<open>The three kinds of iteration.\<close>

lemma wtr_step_water_water:
  assumes "str_in s a1" "str_in s a2"
  shows "wtr_step s (f, a1, a2, t) st =
     Inr (st\<lparr>frame_idx_var := Some f, solvent_bridges_var := solvent_bridges_var st @ [(a1, a2)]\<rparr>)"
  using assms by (simp add: wtr_step_def)

lemma wtr_step_water_residue:
  assumes "water_residue_pair s (f, a1, a2, t) = Some (w, p)"
  shows "wtr_step s (f, a1, a2, t) st =
     Inr (st\<lparr>frame_idx_var := Some f, water_var := Some w, protein_var := Some p,
             water_to_residues_var := dict_add w p (water_to_residues_var st)\<rparr>)"
  using assms by (auto simp: wtr_step_def water_residue_pair_def split: if_splits)

lemma wtr_step_residue_residue:
  assumes "\<not> str_in s a1" "\<not> str_in s a2"
  shows "wtr_step s (f, a1, a2, t) st =
     (case water_var st of
        None \<Rightarrow> Inl UnboundLocalError
      | Some w \<Rightarrow>
          (case protein_var st of
             None \<Rightarrow> Inl UnboundLocalError
           | Some p \<Rightarrow>
               Inr (st\<lparr>frame_idx_var := Some f,
                       water_to_residues_var := dict_add w p (water_to_residues_var st)\<rparr>)))"
  using assms by (simp add: wtr_step_def split: option.splits)

lemma hbond_kinds:
  obtains (ww) "str_in s a1" "str_in s a2"
  | (wr) w p where "water_residue_pair s (f, a1, a2, t) = Some (w, p)"
  | (rr) "\<not> str_in s a1" "\<not> str_in s a2"
  by (cases "str_in s a1"; cases "str_in s a2") (auto simp: water_residue_pair_def)

lemma wtr_step_bound_pair:
  assumes "wtr_step s h st = Inr st'" "bound_pair st"
  shows "bound_pair st'"
proof -
  obtain f a1 a2 t where h: "h = (f, a1, a2, t)" by (cases h) auto
  show ?thesis
  proof (cases rule: hbond_kinds [where s = s and ?a1.0 = a1 and ?a2.0 = a2 and f = f and t = t])
    case ww
    with assms show ?thesis
      by (auto simp: h wtr_step_water_water bound_pair_def)
  next
    case (wr w p)
    with assms(1) show ?thesis
      by (auto simp: h wtr_step_water_residue bound_pair_def map_of_dict_add)
  next
    case rr
    with assms show ?thesis
      by (auto simp: h wtr_step_residue_residue bound_pair_def dict_add_absorb)
  qed
qed

lemma wtr_loop_bound_pair:
  "wtr_loop s hs st = Inr st' \<Longrightarrow> bound_pair st \<Longrightarrow> bound_pair st'"
  by (induction hs arbitrary: st) (auto split: sum.splits dest: wtr_step_bound_pair)

lemma wtr_step_establishes:
  assumes "water_residue_pair s h = Some (w, p)"
  shows "\<exists>st'. wtr_step s h st = Inr st' \<and> bound_pair st'"
proof -
  obtain f a1 a2 t where h: "h = (f, a1, a2, t)" by (cases h) auto
  from assms show ?thesis
    by (simp add: h wtr_step_water_residue bound_pair_def map_of_dict_add)
qed

lemma wtr_step_noop:
  assumes "bound_pair st" "\<not> touches_solvent s r"
  shows "wtr_step s r st = Inr (st\<lparr>frame_idx_var := Some (fst r)\<rparr>)"
proof -
  obtain f a1 a2 t where r: "r = (f, a1, a2, t)" by (cases r) auto
  from assms(2) have rr: "\<not> str_in s a1" "\<not> str_in s a2"
    by (auto simp: r touches_solvent_def)
  from assms(1) obtain w p S where b: "water_var st = Some w" "protein_var st = Some p"
      "map_of (water_to_residues_var st) w = Some S" "p \<in> S"
    by (auto simp: bound_pair_def)
  show ?thesis
    by (simp add: r wtr_step_residue_residue [OF rr] b dict_add_absorb [OF b(3,4)])
qed

lemma wtr_loop_after_water_residue:
  assumes "water_residue_pair s h = Some (w, p)" "\<not> touches_solvent s r"
  shows "wtr_loop s (pre @ h # mid @ [r]) st =
     (case wtr_loop s (pre @ h # mid) st of
        Inl e \<Rightarrow> Inl e
      | Inr st' \<Rightarrow> Inr (st'\<lparr>frame_idx_var := Some (fst r)\<rparr>))"
proof (cases "wtr_loop s (pre @ h # mid) st")
  case (Inl e)
  have "pre @ h # mid @ [r] = (pre @ h # mid) @ [r]" by simp
  then show ?thesis using Inl by (simp only: wtr_loop_append sum.case)
next
  case (Inr st')
  then obtain st0 where st0: "wtr_loop s pre st = Inr st0"
      and rest: "wtr_loop s (h # mid) st0 = Inr st'"
    by (auto simp: wtr_loop_append split: sum.splits)
  from wtr_step_establishes [OF assms(1), of st0] obtain st1
    where st1: "wtr_step s h st0 = Inr st1" "bound_pair st1" by blast
  with rest have "wtr_loop s mid st1 = Inr st'" by simp
  then have "bound_pair st'" using st1(2) by (rule wtr_loop_bound_pair)
  then have "wtr_step s r st' = Inr (st'\<lparr>frame_idx_var := Some (fst r)\<rparr>)"
    using assms(2) by (rule wtr_step_noop)
  moreover have "pre @ h # mid @ [r] = (pre @ h # mid) @ [r]" by simp
  ultimately show ?thesis using Inr by (simp only: wtr_loop_append sum.case wtr_loop.simps)
qed

lemma wtr_loop_frame_idx:
  "wtr_loop s hs st = Inr st' \<Longrightarrow> hs \<noteq> [] \<Longrightarrow> frame_idx_var st' = Some (fst (last hs))"
proof (induction hs arbitrary: st)
  case Nil
  then show ?case by simp
next
  case (Cons h hs)
  then obtain st1 where st1: "wtr_step s h st = Inr st1" "wtr_loop s hs st1 = Inr st'"
    by (auto split: sum.splits)
  show ?case
  proof (cases hs)
    case Nil
    obtain f a1 a2 t where h: "h = (f, a1, a2, t)" by (cases h) auto
    from st1 Nil have "wtr_step s h st = Inr st'" by simp
    then have "frame_idx_var st' = Some f"
      unfolding h
      by (cases rule: hbond_kinds [where s = s and ?a1.0 = a1 and ?a2.0 = a2 and f = f and t = t])
         (auto simp: wtr_step_water_water wtr_step_water_residue wtr_step_residue_residue
               split: option.splits)
    with Nil h show ?thesis by simp
  next
    case (Cons h' hs')
    with Cons.IH [OF st1(2)] show ?thesis by simp
  qed
qed

lemma calc_after_water_residue:
  assumes "water_residue_pair s h = Some (w, p)" "\<not> touches_solvent s r"
  shows "calc_water_to_residues_map (pre @ h # mid @ [r]) s =
     (case calc_water_to_residues_map (pre @ h # mid) s of
        Inl e \<Rightarrow> Inl e
      | Inr (frame_idx, water_to_residues, solvent_bridges) \<Rightarrow>
          Inr (fst r, water_to_residues, solvent_bridges))"
proof (cases "wtr_loop s (pre @ h # mid) wtr_init")
  case (Inl e)
  then show ?thesis
    by (simp add: calc_water_to_residues_map_def wtr_loop_after_water_residue [OF assms])
next
  case (Inr st')
  have "pre @ h # mid \<noteq> []" by simp
  from wtr_loop_frame_idx [OF Inr this] obtain f where "frame_idx_var st' = Some f" by blast
  with Inr show ?thesis
    by (simp add: calc_water_to_residues_map_def wtr_loop_after_water_residue [OF assms])
qed

lemma calc_first_residue_residue:
  assumes "\<not> touches_solvent s h"
  shows "calc_water_to_residues_map (h # hs) s = Inl UnboundLocalError"
proof -
  obtain f a1 a2 t where h: "h = (f, a1, a2, t)" by (cases h) auto
  from assms have rr: "\<not> str_in s a1" "\<not> str_in s a2"
    by (auto simp: h touches_solvent_def)
  have "wtr_step s h wtr_init = Inl UnboundLocalError"
    by (simp add: h wtr_step_residue_residue [OF rr] wtr_init_def)
  then show ?thesis by (simp add: calc_water_to_residues_map_def)
qed


subsection \<open>The full list reaches the water helper\<close>

lemma stratify_residue_hbonds_total:
  assumes "\<forall>h \<in> set hs. well_formed h"
  shows "\<exists>r. stratify_residue_hbonds hs = Inr r"
  unfolding stratify_residue_hbonds_def
  using stratify_residue_loop_filter [OF assms, of "[]" "[]" "[]"] by simp

lemma stratify_first_residue_residue:
  assumes "\<not> touches_solvent s h"
    and "\<forall>x \<in> set (h # hs). \<not> touches_solvent s x \<longrightarrow> well_formed x"
  shows "stratify_hbond_subtypes (h # hs) s = Inl UnboundLocalError"
proof -
  have "\<forall>x \<in> set (filter (\<lambda>x. \<not> touches_solvent s x) (h # hs)). well_formed x"
    using assms(2) by auto
  from stratify_residue_hbonds_total [OF this] obtain r
    where "stratify_residue_hbonds (filter (\<lambda>x. \<not> touches_solvent s x) (h # hs)) = Inr r"
    by blast
  moreover have "residue_vs_water_hbonds (h # hs) s =
      (filter (\<lambda>x. \<not> touches_solvent s x) (h # hs), filter (touches_solvent s) (h # hs))"
    by (simp only: residue_vs_water_hbonds_def residue_vs_water_loop_filter append_Nil)
  moreover have "stratify_water_bridge (h # hs) s = Inl UnboundLocalError"
    by (simp add: stratify_water_bridge_def calc_first_residue_residue [OF assms(1)])
  ultimately show ?thesis
    by (cases r) (simp add: stratify_hbond_subtypes_def)
qed

text \<open>
  C10, amended. \<open>stratify_hbond_subtypes\<close> hands the full list to the water helpers.
  So a list whose first element is a residue-residue hydrogen bond (and whose
  residue-residue labels have their atom-name field) makes the call raise
  \<open>UnboundLocalError\<close>. A residue-residue hydrogen bond that comes anywhere after a
  water-residue hydrogen bond (exactly one label containing the solvent name) adds the
  pair bound last again: map and solvent bridges are those of the list without it, and
  only the frame index is taken from it.
\<close>

theorem stratify_hbond_subtypes_full_list:
  "(\<not> touches_solvent solvent_resn h
      \<and> (\<forall>x \<in> set (h # hs). \<not> touches_solvent solvent_resn x \<longrightarrow> well_formed x)
     \<longrightarrow> stratify_hbond_subtypes (h # hs) solvent_resn = Inl UnboundLocalError)
   \<and> (water_residue_pair solvent_resn h' = Some (water, protein)
       \<and> \<not> touches_solvent solvent_resn r
     \<longrightarrow> calc_water_to_residues_map (pre @ h' # mid @ [r]) solvent_resn =
          (case calc_water_to_residues_map (pre @ h' # mid) solvent_resn of
             Inl e \<Rightarrow> Inl e
           | Inr (frame_idx, water_to_residues, solvent_bridges) \<Rightarrow>
               Inr (fst r, water_to_residues, solvent_bridges)))"
  using stratify_first_residue_residue [of solvent_resn h hs]
    calc_after_water_residue [of solvent_resn h' water protein r pre mid]
  by blast

theorem stratify_hbond_subtypes_full_list_witness:
  "stratify_hbond_subtypes
     [(1, ''A:LYS:10:NZ:5'', ''B:PHE:20:CG:50'', ''hb''),
      (1, ''A:LYS:10:NZ:5'', ''W:TIP3:20:OH2:50'', ''hb'')] ''TIP3'' = Inl UnboundLocalError
   \<and> calc_water_to_residues_map
        [(1, ''A:LYS:10:NZ:5'', ''W:TIP3:20:OH2:50'', ''hb''),
         (2, ''A:LYS:10:NZ:5'', ''B:PHE:20:CG:50'', ''hb'')] ''TIP3''
      = Inr (2, [(''W:TIP3:20:OH2:50'', {''A:LYS:10:NZ:5''})], [])"
proof -
  let ?rr = "(1, ''A:LYS:10:NZ:5'', ''B:PHE:20:CG:50'', ''hb'') :: hbond"
  let ?wr = "(1, ''A:LYS:10:NZ:5'', ''W:TIP3:20:OH2:50'', ''hb'') :: hbond"
  let ?rr2 = "(2, ''A:LYS:10:NZ:5'', ''B:PHE:20:CG:50'', ''hb'') :: hbond"
  have a: "\<not> touches_solvent ''TIP3'' ?rr"
    by (simp add: touches_solvent_def)
  have b: "\<forall>x \<in> set [?rr, ?wr]. \<not> touches_solvent ''TIP3'' x \<longrightarrow> well_formed x"
    by (simp add: touches_solvent_def well_formed_def has_name_field_def)
  have c: "water_residue_pair ''TIP3'' ?wr = Some (''W:TIP3:20:OH2:50'', ''A:LYS:10:NZ:5'')"
    by (simp add: water_residue_pair_def)
  have d: "\<not> touches_solvent ''TIP3'' ?rr2"
    by (simp add: touches_solvent_def)
  have e: "calc_water_to_residues_map ([] @ ?wr # []) ''TIP3''
      = Inr (1, [(''W:TIP3:20:OH2:50'', {''A:LYS:10:NZ:5''})], [])"
    by (simp add: calc_water_to_residues_map_def wtr_step_def wtr_init_def)
  from stratify_hbond_subtypes_full_list
         [of "''TIP3''" ?rr "[?wr]" ?wr "''W:TIP3:20:OH2:50''" "''A:LYS:10:NZ:5''" ?rr2 "[]" "[]"]
  have "stratify_hbond_subtypes [?rr, ?wr] ''TIP3'' = Inl UnboundLocalError"
    and "calc_water_to_residues_map ([] @ ?wr # [] @ [?rr2]) ''TIP3'' =
          (case calc_water_to_residues_map ([] @ ?wr # []) ''TIP3'' of
             Inl e \<Rightarrow> Inl e
           | Inr (frame_idx, water_to_residues, solvent_bridges) \<Rightarrow>
               Inr (fst ?rr2, water_to_residues, solvent_bridges))"
    using a b c d by blast+
  then show ?thesis unfolding e by simp
qed

text \<open>
  C10 as it is worded fails after a water-water hydrogen bond, which is water-involving
  but leaves \<open>water\<close> unbound: the residue-residue hydrogen bond that follows it adds
  nothing again, the call raises \<open>UnboundLocalError\<close>.
\<close>

theorem stratify_hbond_subtypes_full_list_counterexample:
  "residue_vs_water_hbonds
     [(1, ''W:TIP3:20:OH2:50'', ''W:TIP3:21:OH2:53'', ''hb''),
      (1, ''A:LYS:10:NZ:5'', ''B:PHE:20:CG:50'', ''hb'')] ''TIP3''
   = ([(1, ''A:LYS:10:NZ:5'', ''B:PHE:20:CG:50'', ''hb'')],
      [(1, ''W:TIP3:20:OH2:50'', ''W:TIP3:21:OH2:53'', ''hb'')])
   \<and> calc_water_to_residues_map
        [(1, ''W:TIP3:20:OH2:50'', ''W:TIP3:21:OH2:53'', ''hb''),
         (1, ''A:LYS:10:NZ:5'', ''B:PHE:20:CG:50'', ''hb'')] ''TIP3'' = Inl UnboundLocalError
   \<and> stratify_hbond_subtypes
        [(1, ''W:TIP3:20:OH2:50'', ''W:TIP3:21:OH2:53'', ''hb''),
         (1, ''A:LYS:10:NZ:5'', ''B:PHE:20:CG:50'', ''hb'')] ''TIP3'' = Inl UnboundLocalError"
  by code_simp

subsection \<open>The water-to-residues map\<close>

lemma nonempty_dict_add:
  "\<forall>(k', S) \<in> set d. S \<noteq> {} \<Longrightarrow> \<forall>(k', S) \<in> set (dict_add k v d). S \<noteq> {}"
  by (induction d) (auto split: if_splits)

lemma dict_inv_dict_add: "dict_inv d \<Longrightarrow> dict_inv (dict_add k v d)"
  unfolding dict_inv_def
  using distinct_dict_add [of d k v] finite_dict_add [of d k v] nonempty_dict_add [of d k v]
  by fastforce

lemma dict_inv_map_of: "dict_inv d \<Longrightarrow> (k, S) \<in> set d \<longleftrightarrow> map_of d k = Some S"
  by (auto simp: dict_inv_def)

lemma dict_inv_finite: "dict_inv d \<Longrightarrow> map_of d k = Some S \<Longrightarrow> finite S \<and> S \<noteq> {}"
  by (auto simp: dict_inv_def dest: map_of_SomeD)

lemma wtr_step_dict_inv:
  assumes "wtr_step s h st = Inr st'" "dict_inv (water_to_residues_var st)"
  shows "dict_inv (water_to_residues_var st')"
proof -
  obtain f a1 a2 t where h: "h = (f, a1, a2, t)" by (cases h) auto
  show ?thesis
  proof (cases rule: hbond_kinds [where s = s and ?a1.0 = a1 and ?a2.0 = a2 and f = f and t = t])
    case ww
    with assms show ?thesis by (auto simp: h wtr_step_water_water)
  next
    case (wr w p)
    with assms show ?thesis by (auto simp: h wtr_step_water_residue dict_inv_dict_add)
  next
    case rr
    with assms show ?thesis
      by (auto simp: h wtr_step_residue_residue dict_inv_dict_add split: option.splits)
  qed
qed

lemma wtr_loop_dict_inv:
  "wtr_loop s hs st = Inr st' \<Longrightarrow> dict_inv (water_to_residues_var st)
   \<Longrightarrow> dict_inv (water_to_residues_var st')"
  by (induction hs arbitrary: st) (auto split: sum.splits dest: wtr_step_dict_inv)

lemma calc_dict_inv:
  assumes "calc_water_to_residues_map hs s = Inr (f, m, sb)"
  shows "dict_inv m"
proof -
  from assms obtain st where "wtr_loop s hs wtr_init = Inr st" "m = water_to_residues_var st"
    by (auto simp: calc_water_to_residues_map_def split: sum.splits option.splits)
  moreover have "dict_inv (water_to_residues_var wtr_init)"
    by (simp add: wtr_init_def dict_inv_def)
  ultimately show ?thesis using wtr_loop_dict_inv by blast
qed

subsection \<open>Direct water bridges\<close>

lemma set_combinations2:
  "sorted xs \<Longrightarrow> distinct xs \<Longrightarrow>
   set (combinations2 xs) = {(a, b). a \<in> set xs \<and> b \<in> set xs \<and> a < b}"
proof (induction xs)
  case Nil
  then show ?case by simp
next
  case (Cons x xs)
  then have lt: "\<forall>y \<in> set xs. x < y" by (auto simp: less_le)
  from Cons have IH: "set (combinations2 xs) = {(a, b). a \<in> set xs \<and> b \<in> set xs \<and> a < b}"
    by simp
  show ?case
  proof (rule set_eqI)
    fix p :: "'a \<times> 'a"
    obtain a b where p: "p = (a, b)" by (cases p) auto
    have "p \<in> set (combinations2 (x # xs)) \<longleftrightarrow>
        (a = x \<and> b \<in> set xs) \<or> (a \<in> set xs \<and> b \<in> set xs \<and> a < b)"
      by (auto simp: p IH)
    also have "\<dots> \<longleftrightarrow> a \<in> set (x # xs) \<and> b \<in> set (x # xs) \<and> a < b"
      using lt by (auto dest: less_asym)
    finally show "p \<in> set (combinations2 (x # xs)) \<longleftrightarrow>
        p \<in> {(a, b). a \<in> set (x # xs) \<and> b \<in> set (x # xs) \<and> a < b}"
      by (simp add: p)
  qed
qed

lemma water_bridge_pairs_set:
  "water_bridge_pairs f w ps A =
     A \<union> {(f, [a, w, b, ''wb'']) | a b. (a, b) \<in> set ps \<and> a \<noteq> b}"
proof (induction ps arbitrary: A)
  case Nil
  then show ?case by simp
next
  case (Cons x ps)
  obtain a b where x: "x = (a, b)" by (cases x) auto
  have split: "{(f, [a', w, b', ''wb'']) | a' b'. (a', b') \<in> set (x # ps) \<and> a' \<noteq> b'} =
      (if a \<noteq> b then {(f, [a, w, b, ''wb''])} else {})
      \<union> {(f, [a', w, b', ''wb'']) | a' b'. (a', b') \<in> set ps \<and> a' \<noteq> b'}"
    unfolding x by (cases "a = b") auto
  show ?case
    unfolding split unfolding x water_bridge_pairs.simps Cons.IH
    by (cases "a = b") auto
qed

lemma finite_water_bridge_pairs: "finite A \<Longrightarrow> finite (water_bridge_pairs f w ps A)"
proof (induction ps arbitrary: A)
  case Nil
  then show ?case by simp
next
  case (Cons x ps)
  obtain a b where x: "x = (a, b)" by (cases x) auto
  show ?case unfolding x water_bridge_pairs.simps
    by (rule Cons.IH) (simp add: Cons.prems)
qed

lemma finite_water_bridge_loop: "finite A \<Longrightarrow> finite (water_bridge_loop f d A)"
proof (induction d arbitrary: A)
  case Nil
  then show ?case by simp
next
  case (Cons x d)
  obtain w S where x: "x = (w, S)" by (cases x) auto
  show ?case unfolding x water_bridge_loop.simps
    by (rule Cons.IH) (simp add: finite_water_bridge_pairs Cons.prems)
qed

lemma length_filter_distinct:
  "distinct xs \<Longrightarrow> length (filter (\<lambda>c. c = x) xs) = (if x \<in> set xs then 1 else 0)"
  by (induction xs) auto

lemma water_bridge_one_water:
  assumes "finite S"
  shows "water_bridge_pairs f w (combinations2 (sorted_list_of_set S)) A =
     A \<union> {(f, [a, w, b, ''wb'']) | a b. a \<in> S \<and> b \<in> S \<and> a < b}"
proof -
  have "set (combinations2 (sorted_list_of_set S)) = {(a, b). a \<in> S \<and> b \<in> S \<and> a < b}"
    using assms by (simp add: set_combinations2)
  then have "{(f, [a, w, b, ''wb'']) | a b.
        (a, b) \<in> set (combinations2 (sorted_list_of_set S)) \<and> a \<noteq> b}
      = {(f, [a, w, b, ''wb'']) | a b. a \<in> S \<and> b \<in> S \<and> a < b}"
    by auto
  then show ?thesis by (simp only: water_bridge_pairs_set)
qed

lemma water_bridge_loop_set:
  "\<forall>(w, S) \<in> set d. finite S \<Longrightarrow>
   water_bridge_loop f d A =
     A \<union> (\<Union>(w, S) \<in> set d. {(f, [a, w, b, ''wb'']) | a b. a \<in> S \<and> b \<in> S \<and> a < b})"
proof (induction d arbitrary: A)
  case Nil
  then show ?case by simp
next
  case (Cons x d)
  obtain w S where x: "x = (w, S)" by (cases x) auto
  with Cons.prems have fin: "finite S" and rest: "\<forall>(w, S) \<in> set d. finite S" by auto
  have "water_bridge_loop f (x # d) A =
      water_bridge_loop f d (A \<union> {(f, [a, w, b, ''wb'']) | a b. a \<in> S \<and> b \<in> S \<and> a < b})"
    by (simp only: x water_bridge_loop.simps water_bridge_one_water [OF fin])
  also have "\<dots> = (A \<union> {(f, [a, w, b, ''wb'']) | a b. a \<in> S \<and> b \<in> S \<and> a < b})
      \<union> (\<Union>(w, S) \<in> set d. {(f, [a, w, b, ''wb'']) | a b. a \<in> S \<and> b \<in> S \<and> a < b})"
    by (rule Cons.IH [OF rest])
  also have "\<dots> = A \<union> (\<Union>(w, S) \<in> set (x # d).
      {(f, [a, w, b, ''wb'']) | a b. a \<in> S \<and> b \<in> S \<and> a < b})"
    by (simp add: x Un_assoc)
  finally show ?case .
qed

lemma count_one_of_two:
  assumes "distinct xs" "x \<in> set xs" "y \<notin> set xs"
  shows "length (filter (\<lambda>c. c = x \<or> c = y) xs) = 1"
proof -
  have "filter (\<lambda>c. c = x \<or> c = y) xs = filter (\<lambda>c. c = x) xs"
    using assms(3) by (intro filter_cong) auto
  then show ?thesis using assms(1,2) by (simp add: length_filter_distinct)
qed

lemma stratify_water_bridge_set:
  assumes "calc_water_to_residues_map hs s = Inr (f, m, sb)"
  shows "\<exists>wb. stratify_water_bridge hs s = Inr wb \<and> sorted wb \<and> distinct wb
     \<and> set wb = {(f, [a, w, b, ''wb'']) | w S a b. map_of m w = Some S \<and> a \<in> S \<and> b \<in> S \<and> a < b}"
proof -
  have inv: "dict_inv m" using assms by (rule calc_dict_inv)
  then have fin: "\<forall>(w, S) \<in> set m. finite S" by (auto simp: dict_inv_def)
  let ?W = "water_bridge_loop f m {}"
  have "stratify_water_bridge hs s = Inr (sorted_list_of_set ?W)"
    using assms by (simp add: stratify_water_bridge_def)
  moreover have "finite ?W" by (simp add: finite_water_bridge_loop)
  moreover have "?W = {(f, [a, w, b, ''wb'']) | w S a b.
      map_of m w = Some S \<and> a \<in> S \<and> b \<in> S \<and> a < b}"
  proof (rule set_eqI)
    fix c :: contact
    have "c \<in> ?W \<longleftrightarrow>
        (\<exists>w S. (w, S) \<in> set m \<and> c \<in> {(f, [a, w, b, ''wb'']) | a b. a \<in> S \<and> b \<in> S \<and> a < b})"
      unfolding water_bridge_loop_set [OF fin] by auto
    also have "\<dots> \<longleftrightarrow>
        (\<exists>w S. map_of m w = Some S \<and> c \<in> {(f, [a, w, b, ''wb'']) | a b. a \<in> S \<and> b \<in> S \<and> a < b})"
      by (simp only: dict_inv_map_of [OF inv])
    also have "\<dots> \<longleftrightarrow> c \<in> {(f, [a, w, b, ''wb'']) | w S a b.
        map_of m w = Some S \<and> a \<in> S \<and> b \<in> S \<and> a < b}"
      by blast
    finally show "c \<in> ?W \<longleftrightarrow> c \<in> {(f, [a, w, b, ''wb'']) | w S a b.
        map_of m w = Some S \<and> a \<in> S \<and> b \<in> S \<and> a < b}" .
  qed
  ultimately show ?thesis by simp
qed

lemma stratify_water_bridge_count:
  assumes "stratify_water_bridge hs s = Inr wb" "distinct wb"
    and "set wb = {(f, [a, w, b, ''wb'']) | w S a b. map_of m w = Some S \<and> a \<in> S \<and> b \<in> S \<and> a < b}"
    and "map_of m w = Some S" "a \<in> S" "b \<in> S" "a \<noteq> b"
  shows "length (filter (\<lambda>c. c = (f, [a, w, b, ''wb'']) \<or> c = (f, [b, w, a, ''wb''])) wb) = 1"
proof (cases "a < b")
  case True
  then have "(f, [a, w, b, ''wb'']) \<in> set wb" "(f, [b, w, a, ''wb'']) \<notin> set wb"
    using assms(3-6) by auto
  then show ?thesis using assms(2) by (simp add: count_one_of_two)
next
  case False
  then have "b < a" using assms(7) by auto
  then have "(f, [b, w, a, ''wb'']) \<in> set wb" "(f, [a, w, b, ''wb'']) \<notin> set wb"
    using assms(3-6) by auto
  then have "length (filter (\<lambda>c. c = (f, [b, w, a, ''wb'']) \<or> c = (f, [a, w, b, ''wb''])) wb) = 1"
    using assms(2) by (simp add: count_one_of_two)
  moreover have "(\<lambda>c. c = (f, [b, w, a, ''wb'']) \<or> c = (f, [a, w, b, ''wb'']))
      = (\<lambda>c. c = (f, [a, w, b, ''wb'']) \<or> c = (f, [b, w, a, ''wb'']))"
    by auto
  ultimately show ?thesis by simp
qed

lemma stratify_water_bridge_two:
  assumes "\<not> str_in s res1" "\<not> str_in s res2" "str_in s water" "res1 \<noteq> res2"
  shows "stratify_water_bridge [(f1, res1, water, t1), (f2, res2, water, t2)] s =
     Inr [(f2, [min res1 res2, water, max res1 res2, ''wb''])]"
proof -
  have p1: "water_residue_pair s (f1, res1, water, t1) = Some (water, res1)"
    and p2: "water_residue_pair s (f2, res2, water, t2) = Some (water, res2)"
    using assms by (simp_all add: water_residue_pair_def)
  have calc: "calc_water_to_residues_map [(f1, res1, water, t1), (f2, res2, water, t2)] s =
      Inr (f2, [(water, {res2, res1})], [])"
    by (simp add: calc_water_to_residues_map_def wtr_step_water_residue [OF p1]
          wtr_step_water_residue [OF p2] wtr_init_def)
  have sl: "sorted_list_of_set {res2, res1} = [min res1 res2, max res1 res2]"
    using assms(4) by (auto simp: min_def max_def)
  have "min res1 res2 \<noteq> max res1 res2" using assms(4) by (auto simp: min_def max_def)
  then show ?thesis
    by (simp add: stratify_water_bridge_def calc sl)
qed


text \<open>
  C4. When the water-to-residues map is built, \<open>stratify_water_bridge\<close> returns a
  sorted list without repetition whose elements are exactly the contacts
  \<open>[frame_idx, a, water, b, "wb"]\<close> for a water key with set \<open>S\<close> and atoms
  \<open>a < b\<close> of \<open>S\<close>; so for two distinct atoms of \<open>S\<close> exactly one element of the
  list pairs them, in one of the two orders. In particular two hydrogen bonds
  \<open>res1--water\<close> and \<open>res2--water\<close> with distinct residue atoms give the single
  contact that pairs them.
\<close>

theorem stratify_water_bridge_unordered_pairs:
  "(calc_water_to_residues_map water_hbonds solvent_resn =
      Inr (frame_idx, water_to_residues, solvent_bridges)
    \<longrightarrow> (\<exists>wb. stratify_water_bridge water_hbonds solvent_resn = Inr wb
          \<and> sorted wb \<and> distinct wb
          \<and> set wb = {(frame_idx, [a, water, b, ''wb'']) | water S a b.
                map_of water_to_residues water = Some S \<and> a \<in> S \<and> b \<in> S \<and> a < b}
          \<and> (\<forall>water S a b.
                map_of water_to_residues water = Some S \<and> a \<in> S \<and> b \<in> S \<and> a \<noteq> b
                \<longrightarrow> length (filter (\<lambda>c. c = (frame_idx, [a, water, b, ''wb''])
                                       \<or> c = (frame_idx, [b, water, a, ''wb''])) wb) = 1)))
   \<and> (\<not> str_in solvent_resn res1 \<and> \<not> str_in solvent_resn res2
       \<and> str_in solvent_resn water1 \<and> res1 \<noteq> res2
      \<longrightarrow> stratify_water_bridge [(f1, res1, water1, t1), (f2, res2, water1, t2)] solvent_resn =
            Inr [(f2, [min res1 res2, water1, max res1 res2, ''wb''])])"
proof (intro conjI impI)
  assume calc: "calc_water_to_residues_map water_hbonds solvent_resn =
      Inr (frame_idx, water_to_residues, solvent_bridges)"
  from stratify_water_bridge_set [OF calc] obtain wb
    where wb: "stratify_water_bridge water_hbonds solvent_resn = Inr wb" "sorted wb" "distinct wb"
      "set wb = {(frame_idx, [a, water, b, ''wb'']) | water S a b.
         map_of water_to_residues water = Some S \<and> a \<in> S \<and> b \<in> S \<and> a < b}"
    by blast
  have "\<forall>water S a b.
      map_of water_to_residues water = Some S \<and> a \<in> S \<and> b \<in> S \<and> a \<noteq> b
      \<longrightarrow> length (filter (\<lambda>c. c = (frame_idx, [a, water, b, ''wb''])
                             \<or> c = (frame_idx, [b, water, a, ''wb''])) wb) = 1"
    using stratify_water_bridge_count [OF wb(1) wb(3) wb(4)] by blast
  with wb show "\<exists>wb. stratify_water_bridge water_hbonds solvent_resn = Inr wb
          \<and> sorted wb \<and> distinct wb
          \<and> set wb = {(frame_idx, [a, water, b, ''wb'']) | water S a b.
                map_of water_to_residues water = Some S \<and> a \<in> S \<and> b \<in> S \<and> a < b}
          \<and> (\<forall>water S a b.
                map_of water_to_residues water = Some S \<and> a \<in> S \<and> b \<in> S \<and> a \<noteq> b
                \<longrightarrow> length (filter (\<lambda>c. c = (frame_idx, [a, water, b, ''wb''])
                                       \<or> c = (frame_idx, [b, water, a, ''wb''])) wb) = 1)"
    by blast
next
  assume "\<not> str_in solvent_resn res1 \<and> \<not> str_in solvent_resn res2
       \<and> str_in solvent_resn water1 \<and> res1 \<noteq> res2"
  then show "stratify_water_bridge [(f1, res1, water1, t1), (f2, res2, water1, t2)] solvent_resn =
            Inr [(f2, [min res1 res2, water1, max res1 res2, ''wb''])]"
    using stratify_water_bridge_two by blast
qed

theorem stratify_water_bridge_unordered_pairs_witness:
  "stratify_water_bridge
     [(1, ''A:LYS:10:NZ:5'', ''W:TIP3:20:OH2:50'', ''hb''),
      (1, ''A:ALA:11:N:9'', ''W:TIP3:20:OH2:50'', ''hb'')] ''TIP3''
   = Inr [(1, [''A:ALA:11:N:9'', ''W:TIP3:20:OH2:50'', ''A:LYS:10:NZ:5'', ''wb''])]
   \<and> (\<exists>wb. stratify_water_bridge
         [(1, ''A:LYS:10:NZ:5'', ''W:TIP3:20:OH2:50'', ''hb''),
          (1, ''A:ALA:11:N:9'', ''W:TIP3:20:OH2:50'', ''hb'')] ''TIP3'' = Inr wb
       \<and> length (filter (\<lambda>c. c = (1, [''A:LYS:10:NZ:5'', ''W:TIP3:20:OH2:50'', ''A:ALA:11:N:9'', ''wb''])
                            \<or> c = (1, [''A:ALA:11:N:9'', ''W:TIP3:20:OH2:50'', ''A:LYS:10:NZ:5'', ''wb''])) wb) = 1)"
proof -
  define r1 where "r1 = ''A:LYS:10:NZ:5''"
  define r2 where "r2 = ''A:ALA:11:N:9''"
  define w where "w = ''W:TIP3:20:OH2:50''"
  define s where "s = ''TIP3''"
  define t where "t = ''hb''"
  define hs :: "hbond list" where "hs = [(1, r1, w, t), (1, r2, w, t)]"
  define m where "m = [(w, {r2, r1})]"
  have calc: "calc_water_to_residues_map hs s = Inr (1, m, [])"
    by (simp add: calc_water_to_residues_map_def wtr_step_def wtr_init_def
          hs_def m_def r1_def r2_def w_def s_def)
  have hyp: "\<not> str_in s r1 \<and> \<not> str_in s r2 \<and> str_in s w \<and> r1 \<noteq> r2"
    by (simp add: r1_def r2_def w_def s_def)
  have mm: "min r1 r2 = r2" "max r1 r2 = r1"
    by (simp_all add: min_def max_def less_eq_char_def r1_def r2_def)
  have key: "map_of m w = Some {r2, r1} \<and> r1 \<in> {r2, r1} \<and> r2 \<in> {r2, r1} \<and> r1 \<noteq> r2"
    using hyp by (simp add: m_def)
  note inst = stratify_water_bridge_unordered_pairs
    [of hs s 1 m "[]" r1 r2 w 1 t 1 t]
  from inst hyp have two: "stratify_water_bridge hs s = Inr [(1, [r2, w, r1, ''wb''])]"
    unfolding mm hs_def by blast
  note ex = inst [THEN conjunct1, THEN mp, OF calc]
  then obtain wb where all: "stratify_water_bridge hs s = Inr wb
          \<and> sorted wb \<and> distinct wb
          \<and> set wb = {(1, [a, water, b, ''wb'']) | water S a b.
                map_of m water = Some S \<and> a \<in> S \<and> b \<in> S \<and> a < b}
          \<and> (\<forall>water S a b.
                map_of m water = Some S \<and> a \<in> S \<and> b \<in> S \<and> a \<noteq> b
                \<longrightarrow> length (filter (\<lambda>c. c = (1, [a, water, b, ''wb''])
                                       \<or> c = (1, [b, water, a, ''wb''])) wb) = 1)" ..
  note wb = all [THEN conjunct1]
  note cnt = all [THEN conjunct2, THEN conjunct2, THEN conjunct2, THEN conjunct2, rule_format,
    OF key]
  from two wb cnt have "stratify_water_bridge hs s = Inr [(1, [r2, w, r1, ''wb''])]
    \<and> (\<exists>wb. stratify_water_bridge hs s = Inr wb
       \<and> length (filter (\<lambda>c. c = (1, [r1, w, r2, ''wb''])
                             \<or> c = (1, [r2, w, r1, ''wb''])) wb) = 1)"
    by (intro conjI exI [of _ wb])
  then show ?thesis
    unfolding hs_def r1_def r2_def w_def s_def t_def .
qed

subsection \<open>Extended water bridges\<close>

lemma extended_bridge_step:
  "extended_bridge_loop f m ((w1, w2) # bs) A =
     extended_bridge_loop f m bs
       (A \<union> {(f, [a1, w1, w2, a2, ''wb2'']) | S1 S2 a1 a2.
              map_of m w1 = Some S1 \<and> map_of m w2 = Some S2 \<and> a1 \<in> S1 \<and> a2 \<in> S2})"
proof (cases "map_of m w1")
  case None
  then show ?thesis by simp
next
  case S1: (Some S1)
  show ?thesis
  proof (cases "map_of m w2")
    case None
    with S1 show ?thesis by simp
  next
    case S2: (Some S2)
    have "(\<lambda>(atom1, atom2). (f, [atom1, w1, w2, atom2, ''wb2''])) ` (S1 \<times> S2) =
        {(f, [a1, w1, w2, a2, ''wb2'']) | a1 a2. a1 \<in> S1 \<and> a2 \<in> S2}"
      by (rule set_eqI) (auto simp: image_iff)
    with S1 S2 show ?thesis by simp
  qed
qed

lemma extended_bridge_loop_set:
  "extended_bridge_loop f m bs A =
     A \<union> (\<Union>(w1, w2) \<in> set bs.
            {(f, [a1, w1, w2, a2, ''wb2'']) | S1 S2 a1 a2.
               map_of m w1 = Some S1 \<and> map_of m w2 = Some S2 \<and> a1 \<in> S1 \<and> a2 \<in> S2})"
proof (induction bs arbitrary: A)
  case Nil
  then show ?case by simp
next
  case (Cons x bs)
  obtain w1 w2 where x: "x = (w1, w2)" by (cases x) auto
  show ?case
    by (simp only: x extended_bridge_step Cons.IH) (simp add: Un_assoc)
qed

lemma finite_extended_bridge_loop:
  assumes "\<forall>w S. map_of m w = Some S \<longrightarrow> finite S"
  shows "finite A \<Longrightarrow> finite (extended_bridge_loop f m bs A)"
proof (induction bs arbitrary: A)
  case Nil
  then show ?case by simp
next
  case (Cons x bs)
  obtain w1 w2 where x: "x = (w1, w2)" by (cases x) auto
  show ?case
  proof (cases "map_of m w1")
    case None
    then show ?thesis using Cons by (simp add: x)
  next
    case S1: (Some S1)
    show ?thesis
    proof (cases "map_of m w2")
      case None
      with S1 show ?thesis using Cons by (simp add: x)
    next
      case S2: (Some S2)
      from assms S1 S2 have "finite S1" "finite S2" by auto
      then have "finite (A \<union> (\<lambda>(atom1, atom2). (f, [atom1, w1, w2, atom2, ''wb2''])) ` (S1 \<times> S2))"
        using Cons.prems by simp
      then show ?thesis using S1 S2 by (simp add: x Cons.IH)
    qed
  qed
qed

lemma keys_dict_add_set: "fst ` set (dict_add k v d) = insert k (fst ` set d)"
proof -
  have "set (map fst (dict_add k v d)) = insert k (set (map fst d))"
    by (auto simp: keys_dict_add)
  then show ?thesis by simp
qed

lemma wtr_step_keys:
  assumes "wtr_step s h st = Inr st'"
    and "\<forall>w. water_var st = Some w \<longrightarrow> w \<in> fst ` set (water_to_residues_var st)"
  shows "fst ` set (water_to_residues_var st') =
      fst ` set (water_to_residues_var st) \<union> {w. \<exists>p. water_residue_pair s h = Some (w, p)}
    \<and> (\<forall>w. water_var st' = Some w \<longrightarrow> w \<in> fst ` set (water_to_residues_var st'))"
proof -
  obtain f a1 a2 t where h: "h = (f, a1, a2, t)" by (cases h) auto
  show ?thesis
  proof (cases rule: hbond_kinds [where s = s and ?a1.0 = a1 and ?a2.0 = a2 and f = f and t = t])
    case ww
    then have "water_residue_pair s h = None" by (simp add: h water_residue_pair_def)
    with ww assms show ?thesis by (auto simp: h wtr_step_water_water)
  next
    case (wr w p)
    with assms(1) have "st' = st\<lparr>frame_idx_var := Some f, water_var := Some w, protein_var := Some p,
             water_to_residues_var := dict_add w p (water_to_residues_var st)\<rparr>"
      by (simp add: h wtr_step_water_residue)
    with wr show ?thesis by (simp add: h keys_dict_add_set)
  next
    case rr
    then have none: "water_residue_pair s h = None" by (simp add: h water_residue_pair_def)
    from rr assms(1) obtain w p where wp: "water_var st = Some w" "protein_var st = Some p"
        and st': "st' = st\<lparr>frame_idx_var := Some f,
                       water_to_residues_var := dict_add w p (water_to_residues_var st)\<rparr>"
      by (auto simp: h wtr_step_residue_residue split: option.splits)
    from assms(2) wp have "w \<in> fst ` set (water_to_residues_var st)" by simp
    then have "fst ` set (dict_add w p (water_to_residues_var st)) = fst ` set (water_to_residues_var st)"
      by (auto simp: keys_dict_add_set)
    with wp none assms(2) show ?thesis by (simp add: st')
  qed
qed

lemma wtr_loop_keys:
  "wtr_loop s hs st = Inr st' \<Longrightarrow>
   \<forall>w. water_var st = Some w \<longrightarrow> w \<in> fst ` set (water_to_residues_var st) \<Longrightarrow>
   fst ` set (water_to_residues_var st') =
     fst ` set (water_to_residues_var st)
     \<union> {w. \<exists>h \<in> set hs. \<exists>p. water_residue_pair s h = Some (w, p)}"
proof (induction hs arbitrary: st)
  case Nil
  then show ?case by simp
next
  case (Cons h hs)
  then obtain st1 where st1: "wtr_step s h st = Inr st1" "wtr_loop s hs st1 = Inr st'"
    by (auto split: sum.splits)
  note step = wtr_step_keys [OF st1(1) Cons.prems(2)]
  note k1 = step [THEN conjunct1]
  note inv1 = step [THEN conjunct2]
  have "fst ` set (water_to_residues_var st') =
      fst ` set (water_to_residues_var st1)
      \<union> {w. \<exists>h \<in> set hs. \<exists>p. water_residue_pair s h = Some (w, p)}"
    by (rule Cons.IH [OF st1(2) inv1])
  also have "\<dots> = fst ` set (water_to_residues_var st)
      \<union> ({w. \<exists>p. water_residue_pair s h = Some (w, p)}
         \<union> {w. \<exists>h \<in> set hs. \<exists>p. water_residue_pair s h = Some (w, p)})"
    by (simp only: k1 Un_assoc)
  also have "{w. \<exists>p. water_residue_pair s h = Some (w, p)}
         \<union> {w. \<exists>h \<in> set hs. \<exists>p. water_residue_pair s h = Some (w, p)}
       = {w. \<exists>h' \<in> set (h # hs). \<exists>p. water_residue_pair s h' = Some (w, p)}"
    by (rule set_eqI) simp
  finally show ?case .
qed

lemma calc_keys:
  assumes "calc_water_to_residues_map hs s = Inr (f, m, sb)"
  shows "dom (map_of m) = {w. \<exists>h \<in> set hs. \<exists>p. water_residue_pair s h = Some (w, p)}"
proof -
  from assms obtain st where st: "wtr_loop s hs wtr_init = Inr st" "m = water_to_residues_var st"
    by (auto simp: calc_water_to_residues_map_def split: sum.splits option.splits)
  have "\<forall>w. water_var wtr_init = Some w \<longrightarrow> w \<in> fst ` set (water_to_residues_var wtr_init)"
    by (simp add: wtr_init_def)
  from wtr_loop_keys [OF st(1) this]
  have "fst ` set m = {w. \<exists>h \<in> set hs. \<exists>p. water_residue_pair s h = Some (w, p)}"
    by (simp add: st(2) wtr_init_def)
  then show ?thesis by (simp add: dom_map_of_conv_image_fst)
qed

lemma stratify_extended_water_bridge_set:
  assumes "calc_water_to_residues_map hs s = Inr (f, m, sb)"
  shows "\<exists>wb2. stratify_extended_water_bridge hs s = Inr wb2 \<and> sorted wb2 \<and> distinct wb2
     \<and> set wb2 = {(f, [a1, w1, w2, a2, ''wb2'']) | w1 w2 S1 S2 a1 a2.
          (w1, w2) \<in> set sb \<and> map_of m w1 = Some S1 \<and> map_of m w2 = Some S2
          \<and> a1 \<in> S1 \<and> a2 \<in> S2}"
proof -
  have inv: "dict_inv m" using assms by (rule calc_dict_inv)
  have fin: "\<forall>w S. map_of m w = Some S \<longrightarrow> finite S"
  proof (intro allI impI)
    fix w S
    assume "map_of m w = Some S"
    with inv show "finite S" by (rule dict_inv_finite [THEN conjunct1])
  qed
  let ?E = "extended_bridge_loop f m sb {}"
  have "stratify_extended_water_bridge hs s = Inr (sorted_list_of_set ?E)"
    using assms by (simp add: stratify_extended_water_bridge_def)
  moreover have "finite ?E" using fin by (rule finite_extended_bridge_loop) simp
  moreover have "?E = {(f, [a1, w1, w2, a2, ''wb2'']) | w1 w2 S1 S2 a1 a2.
          (w1, w2) \<in> set sb \<and> map_of m w1 = Some S1 \<and> map_of m w2 = Some S2
          \<and> a1 \<in> S1 \<and> a2 \<in> S2}"
  proof (rule set_eqI)
    fix c :: contact
    have "c \<in> ?E \<longleftrightarrow>
        (\<exists>w1 w2. (w1, w2) \<in> set sb \<and> c \<in> {(f, [a1, w1, w2, a2, ''wb2'']) | S1 S2 a1 a2.
               map_of m w1 = Some S1 \<and> map_of m w2 = Some S2 \<and> a1 \<in> S1 \<and> a2 \<in> S2})"
      unfolding extended_bridge_loop_set by (simp add: Bex_def)
    also have "\<dots> \<longleftrightarrow> c \<in> {(f, [a1, w1, w2, a2, ''wb2'']) | w1 w2 S1 S2 a1 a2.
          (w1, w2) \<in> set sb \<and> map_of m w1 = Some S1 \<and> map_of m w2 = Some S2
          \<and> a1 \<in> S1 \<and> a2 \<in> S2}"
      unfolding mem_Collect_eq by (intro iffI; elim exE conjE; intro exI conjI; assumption)
    finally show "c \<in> ?E \<longleftrightarrow> c \<in> {(f, [a1, w1, w2, a2, ''wb2'']) | w1 w2 S1 S2 a1 a2.
          (w1, w2) \<in> set sb \<and> map_of m w1 = Some S1 \<and> map_of m w2 = Some S2
          \<and> a1 \<in> S1 \<and> a2 \<in> S2}" .
  qed
  ultimately show ?thesis
    by (intro exI [of _ "sorted_list_of_set ?E"] conjI)
       (simp_all only: sorted_sorted_list_of_set distinct_sorted_list_of_set
          set_sorted_list_of_set)
qed


lemma stratify_extended_water_bridge_nonempty:
  assumes "calc_water_to_residues_map hs s = Inr (f, m, sb)"
    and "set wb2 = {(f, [a1, w1, w2, a2, ''wb2'']) | w1 w2 S1 S2 a1 a2.
          (w1, w2) \<in> set sb \<and> map_of m w1 = Some S1 \<and> map_of m w2 = Some S2
          \<and> a1 \<in> S1 \<and> a2 \<in> S2}"
    and "(w1, w2) \<in> set sb" "w1 \<in> dom (map_of m)" "w2 \<in> dom (map_of m)"
  shows "\<exists>a1 a2. (f, [a1, w1, w2, a2, ''wb2'']) \<in> set wb2"
proof -
  have inv: "dict_inv m" using assms(1) by (rule calc_dict_inv)
  from assms(4,5) obtain S1 S2 where S: "map_of m w1 = Some S1" "map_of m w2 = Some S2"
    by (auto simp: dom_def)
  from inv S(1) have "S1 \<noteq> {}" by (rule dict_inv_finite [THEN conjunct2])
  moreover from inv S(2) have "S2 \<noteq> {}" by (rule dict_inv_finite [THEN conjunct2])
  ultimately obtain a1 a2 where "a1 \<in> S1" "a2 \<in> S2" by auto
  with S assms(3) have "(f, [a1, w1, w2, a2, ''wb2'']) \<in> set wb2"
    unfolding assms(2) by blast
  then show ?thesis by blast
qed

lemma stratify_extended_water_bridge_removed:
  assumes "calc_water_to_residues_map hs s = Inr (f, m, sb)"
    and "set wb2 = {(f, [a1, w1, w2, a2, ''wb2'']) | w1 w2 S1 S2 a1 a2.
          (w1, w2) \<in> set sb \<and> map_of m w1 = Some S1 \<and> map_of m w2 = Some S2
          \<and> a1 \<in> S1 \<and> a2 \<in> S2}"
    and "\<forall>h \<in> set hs. \<forall>p. water_residue_pair s h \<noteq> Some (w, p)"
  shows "(f, [a1, w, w', a2, ''wb2'']) \<notin> set wb2 \<and> (f, [a1, w', w, a2, ''wb2'']) \<notin> set wb2"
proof -
  have "w \<notin> dom (map_of m)"
    unfolding calc_keys [OF assms(1)] using assms(3) by simp
  then have "map_of m w = None" by (simp add: dom_def)
  then show ?thesis unfolding assms(2) by simp
qed

text \<open>
  C5. When the water-to-residues map is built, \<open>stratify_extended_water_bridge\<close>
  returns a sorted list without repetition whose elements are exactly the contacts
  \<open>[frame_idx, atom1, water1, water2, atom2, "wb2"]\<close> for a solvent bridge
  \<open>(water1, water2)\<close> both of whose waters are keys of the map, \<open>atom1\<close> in the set of
  \<open>water1\<close> and \<open>atom2\<close> in the set of \<open>water2\<close>. Every such bridge gives at least
  one contact, a bridge with a water that is not a key gives none, and a water that no
  water-residue hydrogen bond of the input binds occurs in no contact.
\<close>

theorem stratify_extended_water_bridge_cross_product:
  "calc_water_to_residues_map water_hbonds solvent_resn =
      Inr (frame_idx, water_to_residues, solvent_bridges)
   \<longrightarrow> (\<exists>wb2. stratify_extended_water_bridge water_hbonds solvent_resn = Inr wb2
         \<and> sorted wb2 \<and> distinct wb2
         \<and> set wb2 = {(frame_idx, [atom1, water1, water2, atom2, ''wb2''])
               | water1 water2 S1 S2 atom1 atom2.
               (water1, water2) \<in> set solvent_bridges
               \<and> map_of water_to_residues water1 = Some S1
               \<and> map_of water_to_residues water2 = Some S2
               \<and> atom1 \<in> S1 \<and> atom2 \<in> S2}
         \<and> (\<forall>water1 water2.
               (water1, water2) \<in> set solvent_bridges
               \<and> water1 \<in> dom (map_of water_to_residues)
               \<and> water2 \<in> dom (map_of water_to_residues)
               \<longrightarrow> (\<exists>atom1 atom2.
                     (frame_idx, [atom1, water1, water2, atom2, ''wb2'']) \<in> set wb2))
         \<and> (\<forall>water.
               (\<forall>h \<in> set water_hbonds. \<forall>p.
                  water_residue_pair solvent_resn h \<noteq> Some (water, p))
               \<longrightarrow> (\<forall>atom1 other atom2.
                     (frame_idx, [atom1, water, other, atom2, ''wb2'']) \<notin> set wb2
                     \<and> (frame_idx, [atom1, other, water, atom2, ''wb2'']) \<notin> set wb2)))"
proof
  assume calc: "calc_water_to_residues_map water_hbonds solvent_resn =
      Inr (frame_idx, water_to_residues, solvent_bridges)"
  from stratify_extended_water_bridge_set [OF calc] obtain wb2
    where wb2: "stratify_extended_water_bridge water_hbonds solvent_resn = Inr wb2"
      "sorted wb2" "distinct wb2"
      and elems: "set wb2 = {(frame_idx, [atom1, water1, water2, atom2, ''wb2''])
               | water1 water2 S1 S2 atom1 atom2.
               (water1, water2) \<in> set solvent_bridges
               \<and> map_of water_to_residues water1 = Some S1
               \<and> map_of water_to_residues water2 = Some S2
               \<and> atom1 \<in> S1 \<and> atom2 \<in> S2}"
    by (elim exE conjE)
  have some: "\<forall>water1 water2.
               (water1, water2) \<in> set solvent_bridges
               \<and> water1 \<in> dom (map_of water_to_residues)
               \<and> water2 \<in> dom (map_of water_to_residues)
               \<longrightarrow> (\<exists>atom1 atom2.
                     (frame_idx, [atom1, water1, water2, atom2, ''wb2'']) \<in> set wb2)"
  proof (intro allI impI, elim conjE)
    fix water1 water2
    assume "(water1, water2) \<in> set solvent_bridges"
      "water1 \<in> dom (map_of water_to_residues)" "water2 \<in> dom (map_of water_to_residues)"
    then show "\<exists>atom1 atom2. (frame_idx, [atom1, water1, water2, atom2, ''wb2'']) \<in> set wb2"
      by (rule stratify_extended_water_bridge_nonempty [OF calc elems])
  qed
  have none: "\<forall>water.
               (\<forall>h \<in> set water_hbonds. \<forall>p.
                  water_residue_pair solvent_resn h \<noteq> Some (water, p))
               \<longrightarrow> (\<forall>atom1 other atom2.
                     (frame_idx, [atom1, water, other, atom2, ''wb2'']) \<notin> set wb2
                     \<and> (frame_idx, [atom1, other, water, atom2, ''wb2'']) \<notin> set wb2)"
  proof (intro allI impI)
    fix water atom1 other atom2
    assume "\<forall>h \<in> set water_hbonds. \<forall>p. water_residue_pair solvent_resn h \<noteq> Some (water, p)"
    then show "(frame_idx, [atom1, water, other, atom2, ''wb2'']) \<notin> set wb2
        \<and> (frame_idx, [atom1, other, water, atom2, ''wb2'']) \<notin> set wb2"
      by (rule stratify_extended_water_bridge_removed [OF calc elems])
  qed
  from wb2 elems some none
  show "\<exists>wb2. stratify_extended_water_bridge water_hbonds solvent_resn = Inr wb2
         \<and> sorted wb2 \<and> distinct wb2
         \<and> set wb2 = {(frame_idx, [atom1, water1, water2, atom2, ''wb2''])
               | water1 water2 S1 S2 atom1 atom2.
               (water1, water2) \<in> set solvent_bridges
               \<and> map_of water_to_residues water1 = Some S1
               \<and> map_of water_to_residues water2 = Some S2
               \<and> atom1 \<in> S1 \<and> atom2 \<in> S2}
         \<and> (\<forall>water1 water2.
               (water1, water2) \<in> set solvent_bridges
               \<and> water1 \<in> dom (map_of water_to_residues)
               \<and> water2 \<in> dom (map_of water_to_residues)
               \<longrightarrow> (\<exists>atom1 atom2.
                     (frame_idx, [atom1, water1, water2, atom2, ''wb2'']) \<in> set wb2))
         \<and> (\<forall>water.
               (\<forall>h \<in> set water_hbonds. \<forall>p.
                  water_residue_pair solvent_resn h \<noteq> Some (water, p))
               \<longrightarrow> (\<forall>atom1 other atom2.
                     (frame_idx, [atom1, water, other, atom2, ''wb2'']) \<notin> set wb2
                     \<and> (frame_idx, [atom1, other, water, atom2, ''wb2'']) \<notin> set wb2))"
    by (intro exI [of _ wb2] conjI)
qed


theorem stratify_extended_water_bridge_cross_product_witness:
  "\<exists>wb2. stratify_extended_water_bridge
       [(1, ''A:LYS:10:NZ:5'', ''W:TIP3:20:OH2:50'', ''hb''),
        (1, ''W:TIP3:20:OH2:50'', ''W:TIP3:21:OH2:53'', ''hb''),
        (1, ''W:TIP3:21:OH2:53'', ''A:ALA:11:N:9'', ''hb'')] ''TIP3'' = Inr wb2
     \<and> (\<exists>atom1 atom2.
           (1, [atom1, ''W:TIP3:20:OH2:50'', ''W:TIP3:21:OH2:53'', atom2, ''wb2'']) \<in> set wb2)
     \<and> (1, [''A:LYS:10:NZ:5'', ''W:TIP3:22:OH2:56'', ''W:TIP3:21:OH2:53'', ''A:ALA:11:N:9'',
             ''wb2'']) \<notin> set wb2"
proof -
  define r1 where "r1 = ''A:LYS:10:NZ:5''"
  define r2 where "r2 = ''A:ALA:11:N:9''"
  define w1 where "w1 = ''W:TIP3:20:OH2:50''"
  define w2 where "w2 = ''W:TIP3:21:OH2:53''"
  define w3 where "w3 = ''W:TIP3:22:OH2:56''"
  define s where "s = ''TIP3''"
  define t where "t = ''hb''"
  define hs :: "hbond list" where "hs = [(1, r1, w1, t), (1, w1, w2, t), (1, w2, r2, t)]"
  define m where "m = [(w1, {r1}), (w2, {r2})]"
  define sb where "sb = [(w1, w2)]"
  have calc: "calc_water_to_residues_map hs s = Inr (1, m, sb)"
    by (simp add: calc_water_to_residues_map_def wtr_step_def wtr_init_def
          hs_def m_def sb_def r1_def r2_def w1_def w2_def s_def)
  have bridge: "(w1, w2) \<in> set sb \<and> w1 \<in> dom (map_of m) \<and> w2 \<in> dom (map_of m)"
    by (simp add: sb_def m_def)
  have gone: "\<forall>h \<in> set hs. \<forall>p. water_residue_pair s h \<noteq> Some (w3, p)"
    by (simp add: hs_def water_residue_pair_def r1_def r2_def w1_def w2_def w3_def s_def)
  note ex = stratify_extended_water_bridge_cross_product
    [of hs s 1 m sb, THEN mp, OF calc]
  then obtain wb2 where all: "stratify_extended_water_bridge hs s = Inr wb2
         \<and> sorted wb2 \<and> distinct wb2
         \<and> set wb2 = {(1, [atom1, water1, water2, atom2, ''wb2''])
               | water1 water2 S1 S2 atom1 atom2.
               (water1, water2) \<in> set sb
               \<and> map_of m water1 = Some S1
               \<and> map_of m water2 = Some S2
               \<and> atom1 \<in> S1 \<and> atom2 \<in> S2}
         \<and> (\<forall>water1 water2.
               (water1, water2) \<in> set sb
               \<and> water1 \<in> dom (map_of m)
               \<and> water2 \<in> dom (map_of m)
               \<longrightarrow> (\<exists>atom1 atom2.
                     (1, [atom1, water1, water2, atom2, ''wb2'']) \<in> set wb2))
         \<and> (\<forall>water.
               (\<forall>h \<in> set hs. \<forall>p.
                  water_residue_pair s h \<noteq> Some (water, p))
               \<longrightarrow> (\<forall>atom1 other atom2.
                     (1, [atom1, water, other, atom2, ''wb2'']) \<notin> set wb2
                     \<and> (1, [atom1, other, water, atom2, ''wb2'']) \<notin> set wb2))" ..
  note res = all [THEN conjunct1]
  note some = all [THEN conjunct2, THEN conjunct2, THEN conjunct2, THEN conjunct2,
    THEN conjunct1, rule_format, OF bridge]
  note none = all [THEN conjunct2, THEN conjunct2, THEN conjunct2, THEN conjunct2,
    THEN conjunct2, THEN spec [where x = w3], THEN mp, OF gone,
    THEN spec [where x = r1], THEN spec [where x = w2], THEN spec [where x = r2],
    THEN conjunct1]
  from res some none have "\<exists>wb2. stratify_extended_water_bridge hs s = Inr wb2
     \<and> (\<exists>atom1 atom2. (1, [atom1, w1, w2, atom2, ''wb2'']) \<in> set wb2)
     \<and> (1, [r1, w3, w2, r2, ''wb2'']) \<notin> set wb2"
    by (intro exI [of _ wb2] conjI)
  then show ?thesis
    unfolding hs_def r1_def r2_def w1_def w2_def w3_def s_def t_def .
qed

subsection \<open>The body of the second loop of compute\_pi\_cation\<close>

lemma pi_cation_group_skip:
  "card labels \<noteq> 3 \<Longrightarrow> pi_cation_group lib vmd f (key, labels) = Inr []"
  by (simp add: pi_cation_group_def Let_def)

lemma pi_cation_loop_append:
  "pi_cation_loop lib vmd f (gs1 @ gs2) acc =
     (case pi_cation_loop lib vmd f gs1 acc of
        Inl e \<Rightarrow> Inl e
      | Inr acc' \<Rightarrow> pi_cation_loop lib vmd f gs2 acc')"
  by (induction gs1 arbitrary: acc) (auto split: sum.splits)

text \<open>
  Whatever the arithmetic, a group that appends contacts appends the first atom of the
  sorted triplet once and the second twice.
\<close>

lemma pi_cation_group_contacts:
  assumes "pi_cation_group lib vmd f (key, labels) = Inr contacts"
  shows "contacts = []
     \<or> contacts = [(f, [cation_label_of_key key, ring_atom labels 0, ''pc'']),
                   (f, [cation_label_of_key key, ring_atom labels 1, ''pc'']),
                   (f, [cation_label_of_key key, ring_atom labels 1, ''pc''])]"
  using assms
  by (auto simp: pi_cation_group_def Let_def cation_label_of_key_def ring_atom_def
        split: if_splits sum.splits)

subsection \<open>One lysine over one ring\<close>

lemma ring_grouping:
  "grouping_loop ring_labels [(5, 50), (5, 54), (5, 55)] [] =
     Inr [(''A:LYS:10:NZ:5:2:0'', {''B:PHE:20:CE2:55'', ''B:PHE:20:CE1:54'', ''B:PHE:20:CG:50''})]"
  by (simp add: ring_labels_def py_index_def)

lemma ring_grouping_two:
  "grouping_loop ring_labels [(5, 50), (5, 54)] [] =
     Inr [(''A:LYS:10:NZ:5:2:0'', {''B:PHE:20:CE1:54'', ''B:PHE:20:CG:50''})]"
  by (simp add: ring_labels_def py_index_def)

lemma ring_sorted:
  "sorted_list_of_set {''B:PHE:20:CE2:55'', ''B:PHE:20:CE1:54'', ''B:PHE:20:CG:50''} =
     [''B:PHE:20:CE1:54'', ''B:PHE:20:CE2:55'', ''B:PHE:20:CG:50'']"
  by code_simp

lemma ring_card:
  "card {''B:PHE:20:CE2:55'', ''B:PHE:20:CE1:54'', ''B:PHE:20:CG:50''} = 3"
  by simp

lemma ring_card_two: "card {''B:PHE:20:CE1:54'', ''B:PHE:20:CG:50''} \<noteq> 3"
  by simp

lemma ring_key:
  "py_join '':'' (take 5 (py_split CHR '':'' ''A:LYS:10:NZ:5:2:0'')) = ''A:LYS:10:NZ:5''"
  by simp

lemma ring_coords:
  "get_coord ring_frame ''A:LYS:10:NZ:5'' = (1, 1, 3)"
  "get_coord ring_frame ''B:PHE:20:CE1:54'' = (3, 0, 0)"
  "get_coord ring_frame ''B:PHE:20:CE2:55'' = (0, 3, 0)"
  "get_coord ring_frame ''B:PHE:20:CG:50'' = (0, 0, 0)"
  by (simp_all add: get_coord_def ring_frame_def)

lemma sqrt_9: "sqrt 9 = 3"
  by (rule real_sqrt_unique) simp_all

lemma sqrt_81: "sqrt 81 = 9"
  by (rule real_sqrt_unique) simp_all

lemma ring_distance:
  "calc_geom_distance exact (1, 1, 3) (calc_geom_centroid exact (3, 0, 0) (0, 3, 0) (0, 0, 0)) = 3"
  by (simp add: calc_geom_distance_def calc_geom_centroid_def exact_def sqrt_9)

lemma ring_angle:
  "calc_angle_between_vectors exact
     (calc_geom_normal_vector exact (3, 0, 0) (0, 3, 0) (0, 0, 0))
     (points_to_vector exact (calc_geom_centroid exact (3, 0, 0) (0, 3, 0) (0, 0, 0)) (1, 1, 3))
   = Inr 180"
  by (simp add: calc_angle_between_vectors_def calc_vector_length_def
        calc_geom_normal_vector_def points_to_vector_def calc_geom_centroid_def exact_def
        sqrt_9 sqrt_81)

lemma ring_group:
  "pi_cation_group exact ring_frame 7
      (''A:LYS:10:NZ:5:2:0'', {''B:PHE:20:CE2:55'', ''B:PHE:20:CE1:54'', ''B:PHE:20:CG:50''}) =
     Inr [(7, [''A:LYS:10:NZ:5'', ''B:PHE:20:CE1:54'', ''pc'']),
          (7, [''A:LYS:10:NZ:5'', ''B:PHE:20:CE2:55'', ''pc'']),
          (7, [''A:LYS:10:NZ:5'', ''B:PHE:20:CE2:55'', ''pc''])]"
proof -
  have gates: "\<not> float_gt exact (3 :: real) (DISTANCE_CUTOFF exact)"
    "\<not> float_gt exact
         (py_min exact (math_fabs exact (float_sub exact 180 (float_lit exact 0)))
            (math_fabs exact (float_sub exact 180 (float_lit exact 180))))
         (ANGLE_CUTOFF exact)"
    by (simp_all add: exact_def DISTANCE_CUTOFF_def ANGLE_CUTOFF_def py_min_def)
  show ?thesis
    unfolding pi_cation_group_def prod.case Let_def ring_card ring_sorted ring_key
    by (simp add: ring_coords ring_distance ring_angle gates)
qed




text \<open>
  C8. A group whose set of aromatic labels does not have three elements is skipped: the
  loop body returns without raising and appends nothing, so the loop gives what it
  gives without the group.
\<close>

theorem pi_cation_incomplete_group_skipped:
  "card aromatic_atom_labels \<noteq> 3 \<longrightarrow>
   pi_cation_group lib vmd frame_idx (pi_cation_aromatic_res_key, aromatic_atom_labels) = Inr []
   \<and> pi_cation_loop lib vmd frame_idx
        (before @ (pi_cation_aromatic_res_key, aromatic_atom_labels) # after) pi_cations
      = pi_cation_loop lib vmd frame_idx (before @ after) pi_cations"
proof
  assume c: "card aromatic_atom_labels \<noteq> 3"
  have skip: "pi_cation_group lib vmd frame_idx (pi_cation_aromatic_res_key, aromatic_atom_labels)
      = Inr []"
    using c by (rule pi_cation_group_skip)
  have "pi_cation_loop lib vmd frame_idx
        (before @ (pi_cation_aromatic_res_key, aromatic_atom_labels) # after) pi_cations
      = pi_cation_loop lib vmd frame_idx (before @ after) pi_cations"
    by (simp add: pi_cation_loop_append skip split: sum.splits)
  with skip show "pi_cation_group lib vmd frame_idx
        (pi_cation_aromatic_res_key, aromatic_atom_labels) = Inr []
   \<and> pi_cation_loop lib vmd frame_idx
        (before @ (pi_cation_aromatic_res_key, aromatic_atom_labels) # after) pi_cations
      = pi_cation_loop lib vmd frame_idx (before @ after) pi_cations"
    by (rule conjI)
qed

theorem pi_cation_incomplete_group_skipped_witness:
  "card {''B:PHE:20:CE1:54'', ''B:PHE:20:CG:50''} \<noteq> 3
   \<and> compute_pi_cation exact ring_frame [(5, 50), (5, 54)] 7 ring_labels = Inr []"
proof -
  note skipped = pi_cation_incomplete_group_skipped
    [of "{''B:PHE:20:CE1:54'', ''B:PHE:20:CG:50''}" exact ring_frame 7 "''A:LYS:10:NZ:5:2:0''"
        "[]" "[]" "[]", THEN mp, OF ring_card_two, THEN conjunct2]
  have "compute_pi_cation exact ring_frame [(5, 50), (5, 54)] 7 ring_labels =
      pi_cation_loop exact ring_frame 7
        ([] @ (''A:LYS:10:NZ:5:2:0'', {''B:PHE:20:CE1:54'', ''B:PHE:20:CG:50''}) # []) []"
    by (simp only: compute_pi_cation_def ring_grouping_two sum.case append_Nil)
  also have "\<dots> = Inr []"
    unfolding skipped by simp
  finally show ?thesis using ring_card_two by (rule conjI [rotated])
qed

text \<open>
  C1 does not hold of the code. For the lysine over the ring the group is accepted and
  three contacts are appended, with one frame index and one cation label, but the second
  and the third name the same atom \<open>CE2\<close> (line 112 repeats \<open>arom_atom2_label\<close>);
  the third atom of the sorted triplet, \<open>CG\<close>, is in no contact.
\<close>

theorem compute_pi_cation_repeats_second_atom:
  "compute_pi_cation exact ring_frame [(5, 50), (5, 54), (5, 55)] 7 ring_labels =
     Inr [(7, [''A:LYS:10:NZ:5'', ''B:PHE:20:CE1:54'', ''pc'']),
          (7, [''A:LYS:10:NZ:5'', ''B:PHE:20:CE2:55'', ''pc'']),
          (7, [''A:LYS:10:NZ:5'', ''B:PHE:20:CE2:55'', ''pc''])]"
  by (simp only: compute_pi_cation_def ring_grouping sum.case pi_cation_loop.simps append_Nil
        ring_group)

end
